theory Spec2Isabelle
  imports Main "HOL-Library.Word"
begin

section \<open>Data model of dns_scraper.py\<close>

text \<open>
  Python 2 byte strings are lists of 8-bit words; \<open>ord\<close> is \<open>unat\<close>.  Python integers
  are unbounded, so decoded numbers are \<open>nat\<close> or \<open>int\<close>.
\<close>

type_synonym byte = "8 word"
type_synonym bytes = "byte list"

text \<open>The exceptions that the modelled code can raise.\<close>

datatype pyerr =
    DnsError
  | IndexError
  | ValueError
  | StructError
  | AttributeError
  | DatabaseError

text \<open>
  Constants imported from the \<open>unbound\<close> module (IANA values), and \<open>RR_TYPE_SPF\<close> of the
  source.
\<close>

definition RR_CLASS_IN :: nat where "RR_CLASS_IN = 1"
definition RR_TYPE_A :: nat where "RR_TYPE_A = 1"
definition RR_TYPE_AAAA :: nat where "RR_TYPE_AAAA = 28"
definition RR_TYPE_RRSIG :: nat where "RR_TYPE_RRSIG = 46"
definition RR_TYPE_DNSKEY :: nat where "RR_TYPE_DNSKEY = 48"
definition RR_TYPE_SPF :: nat where "RR_TYPE_SPF = 99"
definition RCODE_SERVFAIL :: nat where "RCODE_SERVFAIL = 2"

text \<open>\<open>DnsConfigOptions\<close>: \<open>attempts\<close> is whatever integer the config file holds.\<close>

record DnsConfigOptions =
  unboundConfig :: "string option"
  forwarder :: "string option"
  attempts :: int

text \<open>The fields of \<open>ub_result\<close> that the code reads.\<close>

record ub_result =
  havedata :: bool
  rcode :: nat
  secure :: bool
  bogus :: bool
  packet :: bytes

text \<open>
  An \<open>ldns_rdf\<close> is seen through its canonical wire bytes (\<open>getRdfData\<close>) and its
  presentation string (\<open>str\<close>); an \<open>ldns_rr\<close> through its type, TTL and rdf list; an
  \<open>ldns_pkt\<close> through its three RR sections.
\<close>

record ldns_rdf =
  rdf_data :: bytes
  rdf_str :: string

record ldns_rr =
  rr_get_type :: nat
  rr_ttl :: nat
  rr_rdfs :: "ldns_rdf list"

datatype ldns_section = LDNS_SECTION_ANSWER | LDNS_SECTION_AUTHORITY | LDNS_SECTION_ADDITIONAL

record ldns_pkt =
  pkt_answer :: "ldns_rr list"
  pkt_authority :: "ldns_rr list"
  pkt_additional :: "ldns_rr list"

text \<open>The rows of the three tables written by the INSERT statements.\<close>

record aa_rr =
  aa_secure :: string
  aa_domain :: string
  aa_ttl :: nat
  aa_addr :: string

record dnskey_rr =
  dk_secure :: string
  dk_domain :: string
  dk_ttl :: nat
  dk_flags :: int
  dk_protocol :: int
  dk_algo :: int
  rsa_exp :: "int option"
  rsa_mod :: "bytes option"
  other_key :: "bytes option"

record rrsig_rr =
  sig_domain :: string
  sig_ttl :: nat
  sig_rr_type :: nat
  sig_algo :: int
  sig_labels :: int
  sig_orig_ttl :: int
  sig_expiration :: int
  sig_inception :: int
  sig_keytag :: int
  sig_signer :: string
  sig_signature :: bytes

datatype sql_row = Aa aa_rr | Dnskey dnskey_rr | Rrsig rrsig_rr

text \<open>Log records, one constructor per logging call of the source.\<close>

datatype log_entry =
    DebugFetched string
  | WarnPermanentServfail string
  | ExcFetchingFailed string
  | ExcFailedToStore ldns_rr
  | ExcFailedToStoreDNSKEY ldns_rr
  | ExcFailedToStoreRRSIG ldns_rr
  | ExcFailedToScan string

text \<open>
  The collaborators behind the interface boundary: the resolver (its answer may change
  from one call to the next, so it is indexed by the number of calls made before), the
  wire decoder \<open>ldns.ldns_wire2pkt\<close>, and whether \<open>cursor.execute\<close> succeeds for a row
  given the rows committed so far.
\<close>

record env =
  resolve :: "nat \<Rightarrow> string \<Rightarrow> nat \<Rightarrow> nat \<Rightarrow> int \<times> ub_result"
  ldns_wire2pkt :: "bytes \<Rightarrow> int \<times> ldns_pkt"
  execute_ok :: "sql_row list \<Rightarrow> sql_row \<Rightarrow> bool"

text \<open>
  The observable state: resolver calls issued (domain, RR type, RR class), log records,
  rows executed in the open transaction, rows committed.
\<close>

record world =
  calls :: "(string \<times> nat \<times> nat) list"
  logs :: "log_entry list"
  pending :: "sql_row list"
  committed :: "sql_row list"

definition logging :: "log_entry \<Rightarrow> world \<Rightarrow> world" where
  "logging e w = w\<lparr>logs := logs w @ [e]\<rparr>"

definition cursor_execute :: "env \<Rightarrow> sql_row \<Rightarrow> world \<Rightarrow> (pyerr + unit) \<times> world" where
  "cursor_execute ev row w =
     (if execute_ok ev (committed w) row
      then (Inr (), w\<lparr>pending := pending w @ [row]\<rparr>)
      else (Inl DatabaseError, w))"

definition conn_commit :: "world \<Rightarrow> world" where
  "conn_commit w = w\<lparr>committed := committed w @ pending w, pending := []\<rparr>"

section \<open>Field conversions\<close>

text \<open>\<open>validationToDbEnum\<close>, an if/elif/else chain.\<close>

definition validationToDbEnum :: "ub_result \<Rightarrow> string" where
  "validationToDbEnum result =
     (if secure result then ''secure''
      else if bogus result then ''bogus''
      else ''insecure'')"

text \<open>
  \<open>result2pkt\<close>: a non-zero status of the wire decoder raises \<open>DnsError\<close>.
\<close>

definition result2pkt :: "env \<Rightarrow> ub_result \<Rightarrow> pyerr + ldns_pkt" where
  "result2pkt ev result =
     (case ldns_wire2pkt ev (packet result) of
        (status, pkt) \<Rightarrow> if status \<noteq> 0 then Inl DnsError else Inr pkt)"

text \<open>
  \<open>rr.rdf(i)\<close> is \<open>None\<close> beyond the last rdf; \<open>getRdfData\<close> then fails on
  \<open>rdf.size()\<close> with an \<open>AttributeError\<close>.
\<close>

definition rr_rdf :: "ldns_rr \<Rightarrow> nat \<Rightarrow> ldns_rdf option" where
  "rr_rdf rr i = (if i < length (rr_rdfs rr) then Some (rr_rdfs rr ! i) else None)"

definition getRdfData :: "ldns_rdf option \<Rightarrow> pyerr + bytes" where
  "getRdfData rdf = (case rdf of None \<Rightarrow> Inl AttributeError | Some r \<Rightarrow> Inr (rdf_data r))"

text \<open>
  \<open>struct.unpack\<close> for the three formats in use: \<open>"B"\<close> (one byte), \<open>"!H"\<close> (two bytes,
  network order), \<open>"!I"\<close> (four bytes, network order).  A string of another length
  raises \<open>struct.error\<close>.
\<close>

datatype struct_fmt = Fmt_B | Fmt_H | Fmt_I

fun fmt_size :: "struct_fmt \<Rightarrow> nat" where
  "fmt_size Fmt_B = 1"
| "fmt_size Fmt_H = 2"
| "fmt_size Fmt_I = 4"

definition struct_unpack :: "struct_fmt \<Rightarrow> bytes \<Rightarrow> pyerr + int" where
  "struct_unpack fmt s =
     (if length s \<noteq> fmt_size fmt then Inl StructError
      else Inr (foldl (\<lambda>acc b. acc * 256 + uint b) 0 s))"

definition rdfConvert :: "ldns_rdf option \<Rightarrow> struct_fmt \<Rightarrow> pyerr + int" where
  "rdfConvert rdf fmt =
     (case getRdfData rdf of Inl e \<Rightarrow> Inl e | Inr s \<Rightarrow> struct_unpack fmt s)"

text \<open>
  \<open>binascii.hexlify\<close>: two lower-case hexadecimal digits per byte.
\<close>

definition hexdigit :: "nat \<Rightarrow> char" where
  "hexdigit n = ''0123456789abcdef'' ! n"

definition hexlify :: "bytes \<Rightarrow> string" where
  "hexlify s = concat (map (\<lambda>b. [hexdigit (unat b div 16), hexdigit (unat b mod 16)]) s)"

text \<open>
  \<open>int(s, 16)\<close> on a string of hexadecimal digits; the empty string (and any other
  character) raises \<open>ValueError\<close>.  The only caller passes the output of \<open>hexlify\<close>,
  so signs, blanks and the \<open>0x\<close> prefix do not arise.
\<close>

definition hexval :: "char \<Rightarrow> nat option" where
  "hexval c =
     (let n = (of_char c :: nat) in
      if 48 \<le> n \<and> n \<le> 57 then Some (n - 48)
      else if 97 \<le> n \<and> n \<le> 102 then Some (n - 87)
      else if 65 \<le> n \<and> n \<le> 70 then Some (n - 55)
      else None)"

fun int16_digits :: "string \<Rightarrow> int \<Rightarrow> pyerr + int" where
  "int16_digits [] acc = Inr acc"
| "int16_digits (c # cs) acc =
     (case hexval c of
        None \<Rightarrow> Inl ValueError
      | Some d \<Rightarrow> int16_digits cs (acc * 16 + int d))"

definition int16 :: "string \<Rightarrow> pyerr + int" where
  "int16 s = (if s = [] then Inl ValueError else int16_digits s 0)"

text \<open>\<open>s.lstrip('\0')\<close> and \<open>s.rstrip(".")\<close>.\<close>

definition lstrip_nul :: "bytes \<Rightarrow> bytes" where
  "lstrip_nul s = dropWhile (\<lambda>b. b = 0) s"

definition rstrip_dot :: "string \<Rightarrow> string" where
  "rstrip_dot s = rev (dropWhile (\<lambda>c. c = CHR ''.'') (rev s))"

text \<open>Python slicing \<open>s[i:j]\<close> and \<open>s[i:]\<close> for non-negative bounds: out-of-range bounds are clamped.\<close>

definition slice :: "'a list \<Rightarrow> nat \<Rightarrow> nat \<Rightarrow> 'a list" where
  "slice s i j = take (j - i) (drop i s)"

definition slice_from :: "'a list \<Rightarrow> nat \<Rightarrow> 'a list" where
  "slice_from s i = drop i s"

section \<open>RSA public key decomposition in \<open>DNSKEYParser.fetchAndStore\<close>\<close>

text \<open>\<open>DnskeyAlgo.algoMap\<close> and its key list \<open>rsaAlgoIds\<close>.\<close>

definition algoMap :: "(int \<times> string) list" where
  "algoMap =
     [(1, ''RSA/MD5''),
      (5, ''RSA/SHA-1''),
      (7, ''RSASHA1-NSEC3-SHA1''),
      (8, ''RSA/SHA-256''),
      (10, ''RSA/SHA-512'')]"

definition rsaAlgoIds :: "int list" where
  "rsaAlgoIds = map fst algoMap"

definition maxDbExp :: int where
  "maxDbExp = 9223372036854775807"

text \<open>
  Lines 360 to 366: the pair \<open>(exp_len, exp_hdr_len)\<close>.  \<open>pubkey[0]\<close>, \<open>pubkey[1]\<close> and
  \<open>pubkey[2]\<close> raise \<open>IndexError\<close> on a string that is too short.  In Python \<open>+\<close> binds
  tighter than \<open><<\<close>, so \<open>ord(pubkey[1]) << 8 + ord(pubkey[2])\<close> shifts by
  \<open>8 + ord(pubkey[2])\<close>.
\<close>

definition rsaExpLen :: "bytes \<Rightarrow> pyerr + (nat \<times> nat)" where
  "rsaExpLen pubkey =
     (if length pubkey < 1 then Inl IndexError
      else let exp_len0 = unat (pubkey ! 0) in
        if exp_len0 > 0 then Inr (exp_len0, 1)
        else if length pubkey < 3 then Inl IndexError
        else Inr (push_bit (8 + unat (pubkey ! 2)) (unat (pubkey ! 1)), 3))"

text \<open>Line 368: the exponent read from the slice, before the comparison with \<open>maxDbExp\<close>.\<close>

definition rsaExponent :: "bytes \<Rightarrow> pyerr + int" where
  "rsaExponent pubkey =
     (case rsaExpLen pubkey of
        Inl e \<Rightarrow> Inl e
      | Inr (exp_len, exp_hdr_len) \<Rightarrow>
          int16 (hexlify (slice pubkey exp_hdr_len (exp_hdr_len + exp_len))))"

text \<open>
  Lines 353 to 376: the triple \<open>(exponent, modulus, other_key)\<close> computed from the
  algorithm number and the public key field.
\<close>

definition dnskeyKeyFields :: "int \<Rightarrow> bytes \<Rightarrow> pyerr + (int option \<times> bytes option \<times> bytes option)" where
  "dnskeyKeyFields algo pubkey =
     (if algo \<in> set rsaAlgoIds then
        (case rsaExpLen pubkey of
           Inl e \<Rightarrow> Inl e
         | Inr (exp_len, exp_hdr_len) \<Rightarrow>
            (case int16 (hexlify (slice pubkey exp_hdr_len (exp_hdr_len + exp_len))) of
               Inl e \<Rightarrow> Inl e
             | Inr exponent \<Rightarrow>
                 if exponent > maxDbExp then Inr (Some (- 1), None, Some pubkey)
                 else Inr (Some exponent, Some (lstrip_nul (slice_from pubkey (exp_hdr_len + exp_len))), None)))
      else Inr (None, None, Some pubkey))"

text \<open>Propagation of an exception through a sequence of statements.\<close>

definition bind_err :: "pyerr + 'a \<Rightarrow> ('a \<Rightarrow> pyerr + 'b) \<Rightarrow> pyerr + 'b" where
  "bind_err x f = (case x of Inl e \<Rightarrow> Inl e | Inr v \<Rightarrow> f v)"

text \<open>
  Lines 346 to 378: the row \<open>sql_data\<close> built from one DNSKEY RR, or the exception
  raised on the way.
\<close>

definition dnskeyRow :: "string \<Rightarrow> string \<Rightarrow> ldns_rr \<Rightarrow> pyerr + dnskey_rr" where
  "dnskeyRow secure_str dmn rr =
     bind_err (rdfConvert (rr_rdf rr 0) Fmt_H) (\<lambda>flags.
     bind_err (rdfConvert (rr_rdf rr 1) Fmt_B) (\<lambda>proto.
     bind_err (rdfConvert (rr_rdf rr 2) Fmt_B) (\<lambda>algo.
     bind_err (getRdfData (rr_rdf rr 3)) (\<lambda>pubkey.
     bind_err (dnskeyKeyFields algo pubkey) (\<lambda>(exponent, modulus, other).
       Inr \<lparr>dk_secure = secure_str, dk_domain = dmn, dk_ttl = rr_ttl rr,
            dk_flags = flags, dk_protocol = proto, dk_algo = algo,
            rsa_exp = exponent, rsa_mod = modulus, other_key = other\<rparr>)))))"

section \<open>\<open>DnsMetadata\<close>\<close>

record DnsMetadata =
  meta_pkt :: ldns_pkt
  meta_rrType :: nat

definition section_rrs :: "ldns_pkt \<Rightarrow> ldns_section \<Rightarrow> ldns_rr list" where
  "section_rrs pkt sec =
     (case sec of
        LDNS_SECTION_ANSWER \<Rightarrow> pkt_answer pkt
      | LDNS_SECTION_AUTHORITY \<Rightarrow> pkt_authority pkt
      | LDNS_SECTION_ADDITIONAL \<Rightarrow> pkt_additional pkt)"

text \<open>
  \<open>pkt.rr_list_by_type\<close> of ldns gives no list (\<open>None\<close>) when no RR of the section has
  the type; \<open>DnsMetadata.rrsigs\<close> guards against it with \<open>rrsigs and ... or []\<close>.
\<close>

definition rr_list_by_type :: "ldns_pkt \<Rightarrow> nat \<Rightarrow> ldns_section \<Rightarrow> ldns_rr list option" where
  "rr_list_by_type pkt t sec =
     (let l = filter (\<lambda>rr. rr_get_type rr = t) (section_rrs pkt sec)
      in if l = [] then None else Some l)"

definition rrsigs :: "DnsMetadata \<Rightarrow> ldns_section \<Rightarrow> ldns_rr list" where
  "rrsigs self sec =
     (case rr_list_by_type (meta_pkt self) RR_TYPE_RRSIG sec of
        None \<Rightarrow> []
      | Some l \<Rightarrow> l)"

text \<open>
  The RRSIG accessors of ldns (\<open>rrsig_algorithm\<close>, \<open>rrsig_labels\<close>, ...) give rdf number
  1, 2, ... of an RRSIG record and \<open>None\<close> for a record of another type; \<open>str\<close> of
  \<open>None\<close> is the string \<open>None\<close>.
\<close>

definition rrsig_rdf :: "ldns_rr \<Rightarrow> nat \<Rightarrow> ldns_rdf option" where
  "rrsig_rdf rr i = (if rr_get_type rr = RR_TYPE_RRSIG then rr_rdf rr i else None)"

definition str_rdf :: "ldns_rdf option \<Rightarrow> string" where
  "str_rdf rdf = (case rdf of None \<Rightarrow> ''None'' | Some r \<Rightarrow> rdf_str r)"

text \<open>Lines 166 to 177: the row built from one RRSIG.\<close>

definition rrsigRow :: "DnsMetadata \<Rightarrow> string \<Rightarrow> ldns_rr \<Rightarrow> pyerr + rrsig_rr" where
  "rrsigRow self dmn rr =
     bind_err (rdfConvert (rrsig_rdf rr 1) Fmt_B) (\<lambda>algo.
     bind_err (rdfConvert (rrsig_rdf rr 2) Fmt_B) (\<lambda>labels.
     bind_err (rdfConvert (rrsig_rdf rr 3) Fmt_I) (\<lambda>orig_ttl.
     bind_err (rdfConvert (rrsig_rdf rr 4) Fmt_I) (\<lambda>expiration.
     bind_err (rdfConvert (rrsig_rdf rr 5) Fmt_I) (\<lambda>inception.
     bind_err (rdfConvert (rrsig_rdf rr 6) Fmt_H) (\<lambda>keytag.
     bind_err (getRdfData (rrsig_rdf rr 8)) (\<lambda>signature.
       Inr \<lparr>sig_domain = dmn, sig_ttl = rr_ttl rr, sig_rr_type = meta_rrType self,
            sig_algo = algo, sig_labels = labels, sig_orig_ttl = orig_ttl,
            sig_expiration = expiration, sig_inception = inception, sig_keytag = keytag,
            sig_signer = rstrip_dot (str_rdf (rrsig_rdf rr 7)),
            sig_signature = signature\<rparr>)))))))"

text \<open>
  One iteration of a store loop (\<open>try ... except: logging.exception ... finally:
  conn.commit()\<close>): build the row, execute the INSERT, log any exception, commit.
\<close>

definition store_rr :: "env \<Rightarrow> log_entry \<Rightarrow> pyerr + sql_row \<Rightarrow> world \<Rightarrow> world" where
  "store_rr ev failure row w =
     (case row of
        Inl e \<Rightarrow> conn_commit (logging failure w)
      | Inr sql_data \<Rightarrow>
          (case cursor_execute ev sql_data w of
             (Inl e, w1) \<Rightarrow> conn_commit (logging failure w1)
           | (Inr u, w1) \<Rightarrow> conn_commit w1))"

definition rrsigsStore :: "env \<Rightarrow> DnsMetadata \<Rightarrow> string \<Rightarrow> ldns_section \<Rightarrow> world \<Rightarrow> world" where
  "rrsigsStore ev self dmn sec w =
     fold (\<lambda>rr. store_rr ev (ExcFailedToStoreRRSIG rr) (map_sum id Rrsig (rrsigRow self dmn rr)))
       (rrsigs self sec) w"

section \<open>\<open>RRTypeParser\<close> and its variants\<close>

record RRTypeParser =
  domain :: string
  rrType :: nat
  rrClass :: nat
  opts :: DnsConfigOptions

text \<open>
  \<open>RRTypeParser.fetch\<close>.  The first argument counts the iterations that
  \<open>range(self.opts.attempts)\<close> still has to give.  Every path through the loop body
  leaves the function (raise, \<open>return result\<close>, \<open>return None\<close>), so the body runs at
  most once; a loop that gives no iteration falls off the end of the function, which
  returns \<open>None\<close>.
\<close>

fun fetch_loop :: "nat \<Rightarrow> env \<Rightarrow> RRTypeParser \<Rightarrow> world \<Rightarrow> (pyerr + ub_result option) \<times> world" where
  "fetch_loop 0 ev self w = (Inr None, w)"
| "fetch_loop (Suc n) ev self w =
     (case resolve ev (length (calls w)) (domain self) (rrType self) (rrClass self) of
        (status, result) \<Rightarrow>
          let w1 = w\<lparr>calls := calls w @ [(domain self, rrType self, rrClass self)]\<rparr> in
          if status \<noteq> 0 then (Inl DnsError, w1)
          else if rcode result \<noteq> RCODE_SERVFAIL
          then (Inr (Some result), logging (DebugFetched (domain self)) w1)
          else (Inr None, logging (WarnPermanentServfail (domain self)) w1))"

definition fetch :: "env \<Rightarrow> RRTypeParser \<Rightarrow> world \<Rightarrow> (pyerr + ub_result option) \<times> world" where
  "fetch ev self w = fetch_loop (nat (attempts (opts self))) ev self w"

text \<open>
  The \<open>try\<close> block that opens both \<open>fetchAndStore\<close> methods: \<open>DnsError\<close> is logged and
  gives count 0, \<open>None\<close> gives count 0 (a result object is true), a result goes on.
  The value is either the count to return at once or the result to decode.
\<close>

definition fetch_or_zero :: "env \<Rightarrow> RRTypeParser \<Rightarrow> world \<Rightarrow> (pyerr + int + ub_result) \<times> world" where
  "fetch_or_zero ev self w =
     (case fetch ev self w of
        (Inl e, w1) \<Rightarrow>
          if e = DnsError then (Inr (Inl 0), logging (ExcFetchingFailed (domain self)) w1)
          else (Inl e, w1)
      | (Inr None, w1) \<Rightarrow> (Inr (Inl 0), w1)
      | (Inr (Some r), w1) \<Rightarrow> (Inr (Inr r), w1))"

text \<open>\<open>rr.a_address()\<close>: rdf 0 of an A or AAAA record, else \<open>None\<close>.\<close>

definition a_address :: "ldns_rr \<Rightarrow> ldns_rdf option" where
  "a_address rr =
     (if rr_get_type rr = RR_TYPE_A \<or> rr_get_type rr = RR_TYPE_AAAA then rr_rdf rr 0 else None)"

definition aaRow :: "string \<Rightarrow> string \<Rightarrow> ldns_rr \<Rightarrow> pyerr + aa_rr" where
  "aaRow secure_str dmn rr =
     Inr \<lparr>aa_secure = secure_str, aa_domain = dmn, aa_ttl = rr_ttl rr,
          aa_addr = str_rdf (a_address rr)\<rparr>"

text \<open>
  \<open>AParser.fetchAndStore\<close> (inherited by \<open>AAAAParser\<close>).  \<open>result2pkt\<close> is outside the
  per-record \<open>try\<close>, and \<open>rrs.rr_count()\<close> on \<open>None\<close> is an \<open>AttributeError\<close>: both
  leave the method.
\<close>

definition A_fetchAndStore :: "env \<Rightarrow> RRTypeParser \<Rightarrow> world \<Rightarrow> (pyerr + int) \<times> world" where
  "A_fetchAndStore ev self w =
     (case fetch_or_zero ev self w of
        (Inl e, w1) \<Rightarrow> (Inl e, w1)
      | (Inr (Inl n), w1) \<Rightarrow> (Inr n, w1)
      | (Inr (Inr r), w1) \<Rightarrow>
          if havedata r then
            (let secure_str = validationToDbEnum r in
             case result2pkt ev r of
               Inl e \<Rightarrow> (Inl e, w1)
             | Inr pkt \<Rightarrow>
                 (case rr_list_by_type pkt (rrType self) LDNS_SECTION_ANSWER of
                    None \<Rightarrow> (Inl AttributeError, w1)
                  | Some rrs \<Rightarrow>
                      let w2 = fold (\<lambda>rr. store_rr ev (ExcFailedToStore rr)
                                    (map_sum id Aa (aaRow secure_str (domain self) rr))) rrs w1;
                          meta = \<lparr>meta_pkt = pkt, meta_rrType = rrType self\<rparr>;
                          w3 = rrsigsStore ev meta (domain self) LDNS_SECTION_ANSWER w2
                      in (Inr (int (length rrs)), w3)))
          else (Inr 0, w1))"

text \<open>\<open>DNSKEYParser.fetchAndStore\<close>.\<close>

definition DNSKEY_fetchAndStore :: "env \<Rightarrow> RRTypeParser \<Rightarrow> world \<Rightarrow> (pyerr + int) \<times> world" where
  "DNSKEY_fetchAndStore ev self w =
     (case fetch_or_zero ev self w of
        (Inl e, w1) \<Rightarrow> (Inl e, w1)
      | (Inr (Inl n), w1) \<Rightarrow> (Inr n, w1)
      | (Inr (Inr result), w1) \<Rightarrow>
          (let secure_str = validationToDbEnum result in
           if havedata result then
             (case result2pkt ev result of
                Inl e \<Rightarrow> (Inl e, w1)
              | Inr pkt \<Rightarrow>
                  (case rr_list_by_type pkt (rrType self) LDNS_SECTION_ANSWER of
                     None \<Rightarrow> (Inl AttributeError, w1)
                   | Some rrs \<Rightarrow>
                       let w2 = fold (\<lambda>rr. store_rr ev (ExcFailedToStoreDNSKEY rr)
                                     (map_sum id Dnskey (dnskeyRow secure_str (domain self) rr))) rrs w1;
                           meta = \<lparr>meta_pkt = pkt, meta_rrType = rrType self\<rparr>;
                           w3 = rrsigsStore ev meta (domain self) LDNS_SECTION_ANSWER w2
                       in (Inr (int (length rrs)), w3)))
           else (Inr 0, w1)))"

section \<open>The scan of one domain in \<open>DnsScanThread.run\<close>\<close>

datatype parserClass = AParser | AAAAParser | DNSKEYParser

definition class_rrType :: "parserClass \<Rightarrow> nat" where
  "class_rrType cls =
     (case cls of AParser \<Rightarrow> RR_TYPE_A | AAAAParser \<Rightarrow> RR_TYPE_AAAA | DNSKEYParser \<Rightarrow> RR_TYPE_DNSKEY)"

definition new_parser :: "parserClass \<Rightarrow> string \<Rightarrow> DnsConfigOptions \<Rightarrow> RRTypeParser" where
  "new_parser cls dmn options =
     \<lparr>domain = dmn, rrType = class_rrType cls, rrClass = RR_CLASS_IN, opts = options\<rparr>"

definition fetchAndStore :: "parserClass \<Rightarrow> env \<Rightarrow> RRTypeParser \<Rightarrow> world \<Rightarrow> (pyerr + int) \<times> world" where
  "fetchAndStore cls =
     (case cls of
        AParser \<Rightarrow> A_fetchAndStore
      | AAAAParser \<Rightarrow> A_fetchAndStore
      | DNSKEYParser \<Rightarrow> DNSKEY_fetchAndStore)"

text \<open>
  The body of \<open>for parserClass in self.rr_scanners\<close>: any exception of the parser is
  logged and the loop goes on; the count returned by \<open>fetchAndStore\<close> is dropped.
\<close>

definition scan_with :: "env \<Rightarrow> DnsConfigOptions \<Rightarrow> string \<Rightarrow> parserClass \<Rightarrow> world \<Rightarrow> world" where
  "scan_with ev options dmn cls w =
     (case fetchAndStore cls ev (new_parser cls dmn options) w of
        (Inl e, w1) \<Rightarrow> logging (ExcFailedToScan dmn) w1
      | (Inr n, w1) \<Rightarrow> w1)"

definition scan_domain :: "env \<Rightarrow> DnsConfigOptions \<Rightarrow> parserClass list \<Rightarrow> string \<Rightarrow> world \<Rightarrow> world" where
  "scan_domain ev options rr_scanners dmn w = fold (scan_with ev options dmn) rr_scanners w"

section \<open>Notions used to state the properties\<close>

text \<open>The value of a byte string read as a big-endian unsigned integer.\<close>

fun big_endian_uint :: "bytes \<Rightarrow> int" where
  "big_endian_uint [] = 0"
| "big_endian_uint (b # bs) = uint b * 256 ^ length bs + big_endian_uint bs"

text \<open>
  The long-form exponent length of RFC 3110: the two bytes after the zero byte read as
  a big-endian 16-bit integer, \<open>(byte1 << 8) + byte2\<close>.
\<close>

definition rfc3110_long_exp_len :: "bytes \<Rightarrow> nat" where
  "rfc3110_long_exp_len pubkey = push_bit 8 (unat (pubkey ! 1)) + unat (pubkey ! 2)"

text \<open>The rows that a store loop inserts when every INSERT succeeds, in order.\<close>

definition stored_rows :: "('a \<Rightarrow> pyerr + 'b) \<Rightarrow> 'a list \<Rightarrow> 'b list" where
  "stored_rows f rrs = concat (map (\<lambda>rr. case f rr of Inl e \<Rightarrow> [] | Inr row \<Rightarrow> [row]) rrs)"

text \<open>The records of an answer for which no row can be built.\<close>

definition malformed :: "('a \<Rightarrow> pyerr + 'b) \<Rightarrow> 'a list \<Rightarrow> 'a list" where
  "malformed f rrs = filter (\<lambda>rr. isl (f rr)) rrs"

text \<open>The rows of the table \<open>dnskey_rr\<close> among a list of rows.\<close>

fun dnskey_rows :: "sql_row list \<Rightarrow> dnskey_rr list" where
  "dnskey_rows [] = []"
| "dnskey_rows (Dnskey r # rows) = r # dnskey_rows rows"
| "dnskey_rows (Aa r # rows) = dnskey_rows rows"
| "dnskey_rows (Rrsig r # rows) = dnskey_rows rows"

text \<open>The log records written by the handler of the DNSKEY store loop.\<close>

fun dnskey_failures :: "log_entry list \<Rightarrow> ldns_rr list" where
  "dnskey_failures [] = []"
| "dnskey_failures (ExcFailedToStoreDNSKEY rr # es) = rr # dnskey_failures es"
| "dnskey_failures (e # es) = dnskey_failures es"

section \<open>Concrete inputs\<close>

definition world0 :: world where
  "world0 = \<lparr>calls = [], logs = [], pending = [], committed = []\<rparr>"

definition options_of :: "int \<Rightarrow> DnsConfigOptions" where
  "options_of n = \<lparr>unboundConfig = None, forwarder = None, attempts = n\<rparr>"

definition empty_pkt :: ldns_pkt where
  "empty_pkt = \<lparr>pkt_answer = [], pkt_authority = [], pkt_additional = []\<rparr>"

definition result_of :: "nat \<Rightarrow> bool \<Rightarrow> ub_result" where
  "result_of rc has = \<lparr>havedata = has, rcode = rc, secure = True, bogus = False, packet = []\<rparr>"

definition rdf_of :: "bytes \<Rightarrow> ldns_rdf" where
  "rdf_of s = \<lparr>rdf_data = s, rdf_str = []\<rparr>"

text \<open>A resolver whose every call reports internal status 1.\<close>

definition failing_env :: env where
  "failing_env =
     \<lparr>resolve = (\<lambda>n d t c. (1, result_of 0 False)),
      ldns_wire2pkt = (\<lambda>s. (0, empty_pkt)),
      execute_ok = (\<lambda>rows row. True)\<rparr>"

text \<open>A resolver whose every call succeeds with response code SERVFAIL.\<close>

definition servfail_env :: env where
  "servfail_env =
     \<lparr>resolve = (\<lambda>n d t c. (0, result_of RCODE_SERVFAIL False)),
      ldns_wire2pkt = (\<lambda>s. (0, empty_pkt)),
      execute_ok = (\<lambda>rows row. True)\<rparr>"

text \<open>
  A zone signing key with RSA/SHA-256, exponent 65537 in the one-byte length form and a
  two-byte modulus; a DNSKEY whose public key field is empty; an ECDSA key; an RRSIG
  that covers type A, signed by \<open>example.com.\<close>.
\<close>

definition short_form_key :: bytes where
  "short_form_key = [3, 1, 0, 1, 0xC5, 0x3B]"

definition good_dnskey :: ldns_rr where
  "good_dnskey =
     \<lparr>rr_get_type = RR_TYPE_DNSKEY, rr_ttl = 3600,
      rr_rdfs = [rdf_of [1, 0], rdf_of [3], rdf_of [8], rdf_of short_form_key]\<rparr>"

definition empty_dnskey :: ldns_rr where
  "empty_dnskey =
     \<lparr>rr_get_type = RR_TYPE_DNSKEY, rr_ttl = 3600,
      rr_rdfs = [rdf_of [1, 1], rdf_of [3], rdf_of [8], rdf_of []]\<rparr>"

definition ecdsa_dnskey :: ldns_rr where
  "ecdsa_dnskey =
     \<lparr>rr_get_type = RR_TYPE_DNSKEY, rr_ttl = 3600,
      rr_rdfs = [rdf_of [1, 1], rdf_of [3], rdf_of [13], rdf_of [0, 7, 9]]\<rparr>"

definition a_rrsig :: ldns_rr where
  "a_rrsig =
     \<lparr>rr_get_type = RR_TYPE_RRSIG, rr_ttl = 300,
      rr_rdfs = [rdf_of [0, 1], rdf_of [8], rdf_of [2], rdf_of [0, 0, 1, 0x2C],
                 rdf_of [0x50, 0, 0, 0], rdf_of [0x4F, 0, 0, 0], rdf_of [0x30, 0x39],
                 \<lparr>rdf_data = [], rdf_str = ''example.com.''\<rparr>, rdf_of [0xAA, 0xBB]]\<rparr>"

definition dnskey_pkt :: ldns_pkt where
  "dnskey_pkt =
     \<lparr>pkt_answer = [good_dnskey, empty_dnskey, ecdsa_dnskey, a_rrsig],
      pkt_authority = [], pkt_additional = []\<rparr>"

text \<open>A resolver that answers with \<open>dnskey_pkt\<close>, and a store that takes every row.\<close>

definition dnskey_env :: env where
  "dnskey_env =
     \<lparr>resolve = (\<lambda>n d t c. (0, result_of 0 True)),
      ldns_wire2pkt = (\<lambda>s. (0, dnskey_pkt)),
      execute_ok = (\<lambda>rows row. True)\<rparr>"

text \<open>
  A public key in the long length form: zero byte, length bytes 1 and 1 (257 by
  RFC 3110), 257 exponent bytes, two modulus bytes.
\<close>

definition long_form_key :: bytes where
  "long_form_key = [0, 1, 1] @ replicate 257 1 @ [0xC5, 0x3B]"

text \<open>A public key whose 9-byte exponent is $2^{64}$.\<close>

definition big_exp_key :: bytes where
  "big_exp_key = [9, 1, 0, 0, 0, 0, 0, 0, 0, 0, 0xC5, 0x3B]"

definition big_exp_dnskey :: ldns_rr where
  "big_exp_dnskey =
     \<lparr>rr_get_type = RR_TYPE_DNSKEY, rr_ttl = 3600,
      rr_rdfs = [rdf_of [1, 0], rdf_of [3], rdf_of [5], rdf_of big_exp_key]\<rparr>"

text \<open>A resolver that answers with the one record \<open>big_exp_dnskey\<close>.\<close>

definition big_exp_pkt :: ldns_pkt where
  "big_exp_pkt = \<lparr>pkt_answer = [big_exp_dnskey], pkt_authority = [], pkt_additional = []\<rparr>"

definition big_exp_env :: env where
  "big_exp_env =
     \<lparr>resolve = (\<lambda>n d t c. (0, result_of 0 True)),
      ldns_wire2pkt = (\<lambda>s. (0, big_exp_pkt)),
      execute_ok = (\<lambda>rows row. True)\<rparr>"

section \<open>Hexadecimal conversion reads a big-endian integer\<close>

lemma hexval_hexdigit_all: "\<forall>n \<in> set [0..<16]. hexval (hexdigit n) = Some n"
  by code_simp

lemma hexval_hexdigit: "n < 16 \<Longrightarrow> hexval (hexdigit n) = Some n"
  using hexval_hexdigit_all by simp

lemma unat_byte_less: "unat (b :: byte) < 256"
  using unsigned_less [of b, where 'a = nat] by simp

lemma int16_digits_hexlify:
  "int16_digits (hexlify s) acc = Inr (foldl (\<lambda>a b. a * 256 + uint b) acc s)"
proof (induction s arbitrary: acc)
  case Nil
  show ?case by (simp add: hexlify_def)
next
  case (Cons b s)
  have hi: "unat b div 16 < 16" using unat_byte_less [of b] by simp
  have lo: "unat b mod 16 < 16" by simp
  have "int (unat b div 16 * 16 + unat b mod 16) = uint b"
    by simp
  then have split: "int (unat b div 16) * 16 + int (unat b mod 16) = uint b"
    by (simp only: of_nat_add of_nat_mult)
  have step: "hexlify (b # s) = hexdigit (unat b div 16) # hexdigit (unat b mod 16) # hexlify s"
    by (simp add: hexlify_def)
  have eq: "(acc * 16 + int (unat b div 16)) * 16 + int (unat b mod 16) = acc * 256 + uint b"
    using split by (simp add: algebra_simps)
  have "int16_digits (hexlify (b # s)) acc =
        int16_digits (hexlify s) ((acc * 16 + int (unat b div 16)) * 16 + int (unat b mod 16))"
    by (simp add: step hexval_hexdigit [OF hi] hexval_hexdigit [OF lo])
  also have "\<dots> = Inr (foldl (\<lambda>a b. a * 256 + uint b) (acc * 256 + uint b) s)"
    by (simp only: eq Cons.IH)
  finally show ?case by simp
qed

lemma foldl_big_endian:
  "foldl (\<lambda>a b. a * 256 + uint b) acc s = acc * 256 ^ length s + big_endian_uint s"
  by (induction s arbitrary: acc) (simp_all add: algebra_simps)

lemma int16_hexlify:
  "int16 (hexlify s) = (if s = [] then Inl ValueError else Inr (big_endian_uint s))"
proof (cases s)
  case Nil
  then show ?thesis by (simp add: int16_def hexlify_def)
next
  case (Cons b bs)
  then have "hexlify s \<noteq> []" by (simp add: hexlify_def)
  then show ?thesis
    using Cons by (simp add: int16_def int16_digits_hexlify foldl_big_endian del: big_endian_uint.simps foldl_Cons)
qed

section \<open>The three outcomes of \<open>fetch\<close>\<close>

lemma fetch_no_attempt:
  "attempts (opts self) \<le> 0 \<Longrightarrow> fetch ev self w = (Inr None, w)"
  by (simp add: fetch_def)

lemma fetch_first_attempt:
  assumes "0 < attempts (opts self)"
  shows "fetch ev self w = fetch_loop (Suc (nat (attempts (opts self)) - 1)) ev self w"
  using assms by (simp add: fetch_def)

lemma fetch_status_nonzero:
  assumes "0 < attempts (opts self)"
    and "fst (resolve ev (length (calls w)) (domain self) (rrType self) (rrClass self)) \<noteq> 0"
  shows "fetch ev self w =
           (Inl DnsError, w\<lparr>calls := calls w @ [(domain self, rrType self, rrClass self)]\<rparr>)"
  using assms(2) unfolding fetch_first_attempt [OF assms(1)]
  by (cases "resolve ev (length (calls w)) (domain self) (rrType self) (rrClass self)")
     (simp add: Let_def)

lemma fetch_servfail:
  assumes "0 < attempts (opts self)"
    and "resolve ev (length (calls w)) (domain self) (rrType self) (rrClass self) = (0, result)"
    and "rcode result = RCODE_SERVFAIL"
  shows "fetch ev self w =
           (Inr None, logging (WarnPermanentServfail (domain self))
                        (w\<lparr>calls := calls w @ [(domain self, rrType self, rrClass self)]\<rparr>))"
  using assms(2,3) unfolding fetch_first_attempt [OF assms(1)]
  by (simp add: Let_def)

lemma fetch_result:
  assumes "0 < attempts (opts self)"
    and "resolve ev (length (calls w)) (domain self) (rrType self) (rrClass self) = (0, result)"
    and "rcode result \<noteq> RCODE_SERVFAIL"
  shows "fetch ev self w =
           (Inr (Some result), logging (DebugFetched (domain self))
                        (w\<lparr>calls := calls w @ [(domain self, rrType self, rrClass self)]\<rparr>))"
  using assms(2,3) unfolding fetch_first_attempt [OF assms(1)]
  by (simp add: Let_def)

lemma fetchAndStore_of_zero:
  "fetch_or_zero ev self w = (Inr (Inl n), w1) \<Longrightarrow> fetchAndStore cls ev self w = (Inr n, w1)"
  by (cases cls) (simp_all add: fetchAndStore_def A_fetchAndStore_def DNSKEY_fetchAndStore_def)

lemma scan_domain_Cons:
  "scan_domain ev options (cls # rest) dmn w =
     scan_domain ev options rest dmn (scan_with ev options dmn cls w)"
  by (simp add: scan_domain_def)

section \<open>Validation state\<close>

text \<open>
  Claim C8.  \<open>validationToDbEnum\<close> gives \<open>secure\<close> when the secure flag of the result
  is set, otherwise \<open>bogus\<close> when the bogus flag is set, and \<open>insecure\<close> otherwise.  The
  secure flag is tested first, so it wins if both flags are set.
\<close>
theorem C8_validation_classification:
  "(secure result \<longrightarrow> validationToDbEnum result = ''secure'')
   \<and> (\<not> secure result \<and> bogus result \<longrightarrow> validationToDbEnum result = ''bogus'')
   \<and> (\<not> secure result \<and> \<not> bogus result \<longrightarrow> validationToDbEnum result = ''insecure'')"
  by (simp add: validationToDbEnum_def)

theorem C8_validation_classification_witness:
  "validationToDbEnum (result_of 0 True) = ''secure''
   \<and> validationToDbEnum ((result_of 0 True)\<lparr>secure := False, bogus := True\<rparr>) = ''bogus''
   \<and> validationToDbEnum ((result_of 0 True)\<lparr>secure := False\<rparr>) = ''insecure''"
  using C8_validation_classification [of "result_of 0 True"]
    C8_validation_classification [of "(result_of 0 True)\<lparr>secure := False, bogus := True\<rparr>"]
    C8_validation_classification [of "(result_of 0 True)\<lparr>secure := False\<rparr>"]
  by (simp add: result_of_def)

section \<open>Resolution outcomes\<close>

text \<open>
  Claim C10.  With a configured attempt count of 0 the loop of \<open>fetch\<close> gives no
  iteration: \<open>fetch\<close> returns \<open>None\<close> and leaves the state as it was (no resolver
  call, no log record), and \<open>fetchAndStore\<close> of every parser class returns count 0.
\<close>
theorem C10_zero_attempts_no_call:
  assumes "attempts (opts self) = 0"
  shows "fetch ev self w = (Inr None, w) \<and> fetchAndStore cls ev self w = (Inr 0, w)"
proof -
  have f: "fetch ev self w = (Inr None, w)"
    using assms by (simp add: fetch_no_attempt)
  then have "fetch_or_zero ev self w = (Inr (Inl 0), w)"
    by (simp add: fetch_or_zero_def)
  then show ?thesis
    using f by (simp add: fetchAndStore_of_zero)
qed

theorem C10_zero_attempts_no_call_witness:
  "attempts (opts (new_parser DNSKEYParser ''example.com'' (options_of 0))) = 0
   \<and> fetch dnskey_env (new_parser DNSKEYParser ''example.com'' (options_of 0)) world0 = (Inr None, world0)
   \<and> fetchAndStore DNSKEYParser dnskey_env (new_parser DNSKEYParser ''example.com'' (options_of 0)) world0
       = (Inr 0, world0)
   \<and> calls world0 = []"
proof -
  have h: "attempts (opts (new_parser DNSKEYParser ''example.com'' (options_of 0))) = 0"
    by (simp add: new_parser_def options_of_def)
  show ?thesis
    using h C10_zero_attempts_no_call [OF h, of dnskey_env world0 DNSKEYParser]
    by (simp add: world0_def)
qed

text \<open>
  Claim C3.  With a positive attempt count, when the resolver call returns status 0 and
  response code SERVFAIL, \<open>fetch\<close> makes that one resolver call whatever the attempt
  count is, logs the warning and returns \<open>None\<close> without raising; \<open>fetchAndStore\<close>
  returns count 0 and logs no failure.
\<close>
theorem C3_servfail_single_call:
  assumes "0 < attempts (opts self)"
    and "resolve ev (length (calls w)) (domain self) (rrType self) (rrClass self) = (0, result)"
    and "rcode result = RCODE_SERVFAIL"
  shows "fetch ev self w =
           (Inr None, logging (WarnPermanentServfail (domain self))
                        (w\<lparr>calls := calls w @ [(domain self, rrType self, rrClass self)]\<rparr>))
         \<and> fetchAndStore cls ev self w =
           (Inr 0, logging (WarnPermanentServfail (domain self))
                        (w\<lparr>calls := calls w @ [(domain self, rrType self, rrClass self)]\<rparr>))"
proof -
  note f = fetch_servfail [OF assms]
  then have "fetch_or_zero ev self w =
           (Inr (Inl 0), logging (WarnPermanentServfail (domain self))
                        (w\<lparr>calls := calls w @ [(domain self, rrType self, rrClass self)]\<rparr>))"
    by (simp add: fetch_or_zero_def)
  then show ?thesis
    using f by (simp add: fetchAndStore_of_zero)
qed

theorem C3_servfail_single_call_witness:
  "0 < attempts (opts (new_parser AParser ''example.com'' (options_of 3)))
   \<and> rcode (result_of RCODE_SERVFAIL False) = RCODE_SERVFAIL
   \<and> fetch servfail_env (new_parser AParser ''example.com'' (options_of 3)) world0 =
       (Inr None,
        \<lparr>calls = [(''example.com'', RR_TYPE_A, RR_CLASS_IN)],
         logs = [WarnPermanentServfail ''example.com''], pending = [], committed = []\<rparr>)
   \<and> fetchAndStore AParser servfail_env (new_parser AParser ''example.com'' (options_of 3)) world0 =
       (Inr 0,
        \<lparr>calls = [(''example.com'', RR_TYPE_A, RR_CLASS_IN)],
         logs = [WarnPermanentServfail ''example.com''], pending = [], committed = []\<rparr>)"
proof -
  let ?self = "new_parser AParser ''example.com'' (options_of 3)"
  have a: "0 < attempts (opts ?self)"
    by (simp add: new_parser_def options_of_def)
  have r: "resolve servfail_env (length (calls world0)) (domain ?self) (rrType ?self) (rrClass ?self)
             = (0, result_of RCODE_SERVFAIL False)"
    by (simp add: servfail_env_def)
  have c: "rcode (result_of RCODE_SERVFAIL False) = RCODE_SERVFAIL"
    by (simp add: result_of_def)
  show ?thesis
    using a c C3_servfail_single_call [OF a r c, of AParser]
    by (simp add: new_parser_def class_rrType_def world0_def logging_def)
qed

text \<open>
  Claim C2, as amended.  With a positive attempt count, when the resolver call reports a
  non-zero internal status, \<open>fetch\<close> raises \<open>DnsError\<close> at once: it has made exactly one
  resolver call and does not retry.  \<open>fetchAndStore\<close> logs the failure and returns
  count 0, and the scan of the domain goes on with the remaining parser classes.
\<close>
theorem C2_transient_error_not_retried:
  assumes "0 < attempts options"
    and "fst (resolve ev (length (calls w)) dmn (class_rrType cls) RR_CLASS_IN) \<noteq> 0"
  shows "fetch ev (new_parser cls dmn options) w =
           (Inl DnsError, w\<lparr>calls := calls w @ [(dmn, class_rrType cls, RR_CLASS_IN)]\<rparr>)
         \<and> fetchAndStore cls ev (new_parser cls dmn options) w =
           (Inr 0, logging (ExcFetchingFailed dmn)
                     (w\<lparr>calls := calls w @ [(dmn, class_rrType cls, RR_CLASS_IN)]\<rparr>))
         \<and> scan_domain ev options (cls # rest) dmn w =
           scan_domain ev options rest dmn
             (logging (ExcFetchingFailed dmn)
                (w\<lparr>calls := calls w @ [(dmn, class_rrType cls, RR_CLASS_IN)]\<rparr>))"
proof -
  let ?self = "new_parser cls dmn options"
  let ?w1 = "w\<lparr>calls := calls w @ [(dmn, class_rrType cls, RR_CLASS_IN)]\<rparr>"
  have a: "0 < attempts (opts ?self)"
    using assms(1) by (simp add: new_parser_def)
  have r: "fst (resolve ev (length (calls w)) (domain ?self) (rrType ?self) (rrClass ?self)) \<noteq> 0"
    using assms(2) by (simp add: new_parser_def)
  have f: "fetch ev ?self w = (Inl DnsError, ?w1)"
    using fetch_status_nonzero [OF a r] by (simp add: new_parser_def)
  then have z: "fetch_or_zero ev ?self w = (Inr (Inl 0), logging (ExcFetchingFailed dmn) ?w1)"
    by (simp add: fetch_or_zero_def new_parser_def)
  have s: "fetchAndStore cls ev ?self w = (Inr 0, logging (ExcFetchingFailed dmn) ?w1)"
    by (rule fetchAndStore_of_zero [OF z])
  have "scan_with ev options dmn cls w = logging (ExcFetchingFailed dmn) ?w1"
    by (simp add: scan_with_def s)
  then show ?thesis
    using f s by (simp add: scan_domain_Cons)
qed

theorem C2_transient_error_not_retried_witness:
  "0 < attempts (options_of 3)
   \<and> fst (resolve failing_env 0 ''example.com'' RR_TYPE_A RR_CLASS_IN) \<noteq> 0
   \<and> fetch failing_env (new_parser AParser ''example.com'' (options_of 3)) world0 =
       (Inl DnsError,
        \<lparr>calls = [(''example.com'', RR_TYPE_A, RR_CLASS_IN)], logs = [], pending = [], committed = []\<rparr>)
   \<and> fetchAndStore AParser failing_env (new_parser AParser ''example.com'' (options_of 3)) world0 =
       (Inr 0,
        \<lparr>calls = [(''example.com'', RR_TYPE_A, RR_CLASS_IN)],
         logs = [ExcFetchingFailed ''example.com''], pending = [], committed = []\<rparr>)
   \<and> scan_domain failing_env (options_of 3) [AParser, DNSKEYParser] ''example.com'' world0 =
       scan_domain failing_env (options_of 3) [DNSKEYParser] ''example.com''
        \<lparr>calls = [(''example.com'', RR_TYPE_A, RR_CLASS_IN)],
         logs = [ExcFetchingFailed ''example.com''], pending = [], committed = []\<rparr>"
proof -
  have a: "0 < attempts (options_of 3)"
    by (simp add: options_of_def)
  have r: "fst (resolve failing_env (length (calls world0)) ''example.com'' (class_rrType AParser) RR_CLASS_IN) \<noteq> 0"
    by (simp add: failing_env_def)
  have r': "fst (resolve failing_env 0 ''example.com'' RR_TYPE_A RR_CLASS_IN) \<noteq> 0"
    by (simp add: failing_env_def)
  show ?thesis
    using a r' C2_transient_error_not_retried [OF a r, of "[DNSKEYParser]"]
    by (simp add: class_rrType_def world0_def logging_def)
qed

text \<open>
  The claim as stated fails: with 3 configured attempts and a resolver that reports
  status 1 on every call, \<open>fetch\<close> has called the resolver once, not 3 times.
\<close>

theorem C2_retry_counterexample:
  "fst (resolve failing_env 0 ''example.com'' RR_TYPE_A RR_CLASS_IN) \<noteq> 0
   \<and> fst (resolve failing_env 1 ''example.com'' RR_TYPE_A RR_CLASS_IN) \<noteq> 0
   \<and> fst (resolve failing_env 2 ''example.com'' RR_TYPE_A RR_CLASS_IN) \<noteq> 0
   \<and> attempts (opts (new_parser AParser ''example.com'' (options_of 3))) = 3
   \<and> length (calls (snd (fetch failing_env (new_parser AParser ''example.com'' (options_of 3)) world0))) = 1"
  by (simp add: failing_env_def fetch_def new_parser_def options_of_def world0_def
      numeral_3_eq_3 Let_def)

section \<open>RSA key decomposition\<close>

text \<open>
  Claim C1.  On the long-form key \<open>long_form_key\<close> (bytes 0, 1, 1, then 257 exponent
  bytes) the code computes the exponent length 512, with the exponent at offset 3,
  where the two length bytes read as a big-endian 16-bit integer give 257.
\<close>
theorem C1_long_form_length_at_failing_input:
  "rsaExpLen long_form_key = Inr (512, 3) \<and> rfc3110_long_exp_len long_form_key = 257"
  by (simp add: rsaExpLen_def rfc3110_long_exp_len_def long_form_key_def)

text \<open>What the long-form branch computes in general.\<close>

lemma rsaExpLen_long_form:
  "rsaExpLen (0 # b1 # b2 # rest) = Inr (unat b1 * 2 ^ (8 + unat b2), 3)"
  by (simp add: rsaExpLen_def push_bit_eq_mult)

lemma rsaExpLen_short_form:
  "b \<noteq> 0 \<Longrightarrow> rsaExpLen (b # rest) = Inr (unat b, 1)"
  by (simp add: rsaExpLen_def unat_gt_0)

lemma unat_length_byte:
  "n < 256 \<Longrightarrow> unat (word_of_nat n :: byte) = n"
  by (simp add: unat_of_nat)

lemma mem_rsaAlgoIds: "algo \<in> set rsaAlgoIds \<longleftrightarrow> algo \<in> {1, 5, 7, 8, 10}"
  by (auto simp add: rsaAlgoIds_def algoMap_def)

lemma maxDbExp_eq: "maxDbExp = 2 ^ 63 - 1"
  by (simp add: maxDbExp_def)

lemma dnskeyKeyFields_rsa:
  assumes "algo \<in> set rsaAlgoIds"
  shows "dnskeyKeyFields algo pubkey =
     (case rsaExpLen pubkey of
        Inl e \<Rightarrow> Inl e
      | Inr (exp_len, exp_hdr_len) \<Rightarrow>
          (case rsaExponent pubkey of
             Inl e \<Rightarrow> Inl e
           | Inr exponent \<Rightarrow>
               if exponent > maxDbExp then Inr (Some (- 1), None, Some pubkey)
               else Inr (Some exponent,
                         Some (lstrip_nul (slice_from pubkey (exp_hdr_len + exp_len))), None)))"
  using assms by (simp add: dnskeyKeyFields_def rsaExponent_def split: sum.splits prod.splits)

text \<open>
  Claim C4.  A public key blob in the one-byte length form is the length byte (1 to
  255), the exponent bytes and the modulus bytes.  For an RSA algorithm number and an
  exponent up to \<open>maxDbExp\<close>, the decomposition gives back the exponent as the
  big-endian value of the exponent bytes and the modulus bytes without their leading
  zero bytes, and leaves the opaque key unset.
\<close>
theorem C4_short_form_round_trip:
  assumes "algo \<in> set rsaAlgoIds"
    and "e \<noteq> []" and "length e < 256"
    and "big_endian_uint e \<le> maxDbExp"
  shows "dnskeyKeyFields algo (word_of_nat (length e) # e @ m) =
           Inr (Some (big_endian_uint e), Some (dropWhile (\<lambda>b. b = 0) m), None)"
proof -
  let ?b = "word_of_nat (length e) :: byte"
  have len: "unat ?b = length e"
    using assms(3) by (rule unat_length_byte)
  then have "?b \<noteq> 0"
    using assms(2) by (metis length_0_conv unat_0)
  then have hdr: "rsaExpLen (?b # e @ m) = Inr (length e, 1)"
    by (simp add: rsaExpLen_short_form len)
  have ex: "rsaExponent (?b # e @ m) = Inr (big_endian_uint e)"
    using assms(2) by (simp add: rsaExponent_def hdr slice_def int16_hexlify)
  show ?thesis
    using assms(4) by (simp add: dnskeyKeyFields_rsa [OF assms(1)] hdr ex
        lstrip_nul_def slice_from_def)
qed

theorem C4_short_form_round_trip_witness:
  "(8::int) \<in> set rsaAlgoIds \<and> big_endian_uint [1, 0, 1] = 65537
   \<and> dnskeyKeyFields 8 short_form_key = Inr (Some 65537, Some [0xC5, 0x3B], None)"
proof -
  have a: "(8::int) \<in> set rsaAlgoIds" by (simp add: mem_rsaAlgoIds)
  have n: "[1, 0, 1] \<noteq> ([] :: bytes)" by simp
  have l: "length ([1, 0, 1] :: bytes) < 256" by simp
  have v: "big_endian_uint [1, 0, 1] = 65537" by simp
  have m: "big_endian_uint [1, 0, 1] \<le> maxDbExp" by (simp add: maxDbExp_def)
  show ?thesis
    using a v C4_short_form_round_trip [OF a n l m, of "[0xC5, 0x3B]"]
    by (simp add: short_form_key_def)
qed

lemma dnskeyRow_converted:
  assumes "rdfConvert (rr_rdf rr 0) Fmt_H = Inr flags"
    and "rdfConvert (rr_rdf rr 1) Fmt_B = Inr proto"
    and "rdfConvert (rr_rdf rr 2) Fmt_B = Inr algo"
    and "getRdfData (rr_rdf rr 3) = Inr pubkey"
  shows "dnskeyRow s d rr =
     (case dnskeyKeyFields algo pubkey of
        Inl e \<Rightarrow> Inl e
      | Inr (exponent, modulus, other) \<Rightarrow>
          Inr \<lparr>dk_secure = s, dk_domain = d, dk_ttl = rr_ttl rr,
               dk_flags = flags, dk_protocol = proto, dk_algo = algo,
               rsa_exp = exponent, rsa_mod = modulus, other_key = other\<rparr>)"
  using assms by (simp add: dnskeyRow_def bind_err_def split: sum.splits)

lemma dnskeyKeyFields_never_both:
  "dnskeyKeyFields algo pubkey = Inr (exponent, modulus, other) \<Longrightarrow> modulus = None \<or> other = None"
  by (auto simp add: dnskeyKeyFields_def split: if_splits sum.splits prod.splits)

lemma dnskeyRow_never_both:
  assumes "dnskeyRow s d rr = Inr row"
  shows "rsa_mod row = None \<or> other_key row = None"
proof -
  from assms obtain algo pubkey exponent modulus other
    where k: "dnskeyKeyFields algo pubkey = Inr (exponent, modulus, other)"
      and r: "rsa_mod row = modulus" "other_key row = other"
    by (auto simp add: dnskeyRow_def bind_err_def split: sum.splits)
  from dnskeyKeyFields_never_both [OF k] r show ?thesis by simp
qed

lemma rdfConvert_rdf_of:
  "i < length (rr_rdfs rr) \<Longrightarrow> rdfConvert (rr_rdf rr i) fmt = struct_unpack fmt (rdf_data (rr_rdfs rr ! i))"
  by (simp add: rdfConvert_def rr_rdf_def getRdfData_def)

section \<open>Store loops\<close>

lemma stored_rows_Nil: "stored_rows f [] = []"
  by (simp add: stored_rows_def)

lemma malformed_Nil: "malformed f [] = []"
  by (simp add: malformed_def)

lemma stored_rows_Cons:
  "stored_rows f (rr # rrs) = (case f rr of Inl e \<Rightarrow> [] | Inr row \<Rightarrow> [row]) @ stored_rows f rrs"
  by (simp add: stored_rows_def)

lemma malformed_Cons:
  "malformed f (rr # rrs) = (if isl (f rr) then [rr] else []) @ malformed f rrs"
  by (simp add: malformed_def)

lemma stored_rows_map_sum:
  "stored_rows (\<lambda>rr. map_sum id g (f rr)) rrs = map g (stored_rows f rrs)"
  by (induction rrs) (simp_all add: stored_rows_def split: sum.splits)

lemma malformed_map_sum:
  "malformed (\<lambda>rr. map_sum id g (f rr)) rrs = malformed f rrs"
  by (simp add: malformed_def isl_map_sum)

lemma length_stored_rows:
  "length (stored_rows f rrs) + length (malformed f rrs) = length rrs"
  by (induction rrs)
     (simp_all add: stored_rows_Nil malformed_Nil stored_rows_Cons malformed_Cons split: sum.splits)

lemma stored_rows_wellformed:
  "map Inr (stored_rows f rrs) = map f (filter (\<lambda>rr. \<not> isl (f rr)) rrs)"
  by (induction rrs) (auto simp add: stored_rows_Nil stored_rows_Cons split: sum.splits)

lemma store_rr_effect:
  assumes "\<forall>rows r. execute_ok ev rows r" and "pending w = []"
  shows "calls (store_rr ev failure row w) = calls w"
    and "pending (store_rr ev failure row w) = []"
    and "committed (store_rr ev failure row w) =
           committed w @ (case row of Inl e \<Rightarrow> [] | Inr r \<Rightarrow> [r])"
    and "logs (store_rr ev failure row w) =
           logs w @ (case row of Inl e \<Rightarrow> [failure] | Inr r \<Rightarrow> [])"
  using assms
  by (simp_all add: store_rr_def cursor_execute_def conn_commit_def logging_def split: sum.splits)

lemma store_loop_effect:
  assumes "\<forall>rows r. execute_ok ev rows r" and "pending w = []"
  shows "calls (fold (\<lambda>rr. store_rr ev (failure rr) (f rr)) rrs w) = calls w
       \<and> pending (fold (\<lambda>rr. store_rr ev (failure rr) (f rr)) rrs w) = []
       \<and> committed (fold (\<lambda>rr. store_rr ev (failure rr) (f rr)) rrs w) =
           committed w @ stored_rows f rrs
       \<and> logs (fold (\<lambda>rr. store_rr ev (failure rr) (f rr)) rrs w) =
           logs w @ map failure (malformed f rrs)"
  using assms(2)
proof (induction rrs arbitrary: w)
  case Nil
  then show ?case by (simp add: stored_rows_def malformed_def)
next
  case (Cons rr rrs)
  note step = store_rr_effect [OF assms(1) Cons.prems, of "failure rr" "f rr"]
  from Cons.IH [OF step(2)] show ?case
    by (simp add: step stored_rows_Cons malformed_Cons split: sum.splits)
qed

lemma dnskey_rows_append: "dnskey_rows (xs @ ys) = dnskey_rows xs @ dnskey_rows ys"
  by (induction xs rule: dnskey_rows.induct) simp_all

lemma dnskey_rows_Dnskey: "dnskey_rows (map Dnskey rs) = rs"
  by (induction rs) simp_all

lemma dnskey_rows_Rrsig: "dnskey_rows (map Rrsig rs) = []"
  by (induction rs) simp_all

lemma dnskey_failures_append:
  "dnskey_failures (xs @ ys) = dnskey_failures xs @ dnskey_failures ys"
  by (induction xs rule: dnskey_failures.induct) simp_all

lemma dnskey_failures_DNSKEY: "dnskey_failures (map ExcFailedToStoreDNSKEY rrs) = rrs"
  by (induction rrs) simp_all

lemma dnskey_failures_RRSIG: "dnskey_failures (map ExcFailedToStoreRRSIG rrs) = []"
  by (induction rrs) simp_all

section \<open>RRSIG metadata\<close>

lemma rrsigs_answer:
  "rrsigs meta LDNS_SECTION_ANSWER =
     filter (\<lambda>rr. rr_get_type rr = RR_TYPE_RRSIG) (pkt_answer (meta_pkt meta))"
  by (simp add: rrsigs_def rr_list_by_type_def section_rrs_def Let_def)

lemma rrsigsStore_effect:
  assumes "\<forall>rows r. execute_ok ev rows r" and "pending w = []"
  shows "calls (rrsigsStore ev meta dmn sec w) = calls w
       \<and> pending (rrsigsStore ev meta dmn sec w) = []
       \<and> committed (rrsigsStore ev meta dmn sec w) =
           committed w @ map Rrsig (stored_rows (rrsigRow meta dmn) (rrsigs meta sec))
       \<and> logs (rrsigsStore ev meta dmn sec w) =
           logs w @ map ExcFailedToStoreRRSIG (malformed (rrsigRow meta dmn) (rrsigs meta sec))"
  using store_loop_effect [OF assms, of ExcFailedToStoreRRSIG
      "\<lambda>rr. map_sum id Rrsig (rrsigRow meta dmn rr)" "rrsigs meta sec"]
  by (simp add: rrsigsStore_def stored_rows_map_sum malformed_map_sum)

lemma rrsigRow_fields:
  assumes "rrsigRow meta dmn rr = Inr row"
  shows "sig_rr_type row = meta_rrType meta"
    and "sig_signer row = rstrip_dot (str_rdf (rrsig_rdf rr 7))"
    and "sig_domain row = dmn"
  using assms by (auto simp add: rrsigRow_def bind_err_def split: sum.splits)

lemma rstrip_dot_no_trailing_dot:
  "rstrip_dot s = [] \<or> last (rstrip_dot s) \<noteq> CHR ''.''"
proof (cases "dropWhile (\<lambda>c. c = CHR ''.'') (rev s) = []")
  case True
  then show ?thesis by (simp add: rstrip_dot_def)
next
  case False
  from hd_dropWhile [OF this] show ?thesis
    by (simp add: rstrip_dot_def last_rev)
qed

lemma takeWhile_eq_replicate:
  "takeWhile (\<lambda>c. c = x) xs = replicate (length (takeWhile (\<lambda>c. c = x) xs)) x"
  by (induction xs) simp_all

lemma rstrip_dot_only_dots:
  "s = rstrip_dot s @ replicate (length (takeWhile (\<lambda>c. c = CHR ''.'') (rev s))) (CHR ''.'')"
proof -
  have "rev s = takeWhile (\<lambda>c. c = CHR ''.'') (rev s) @ dropWhile (\<lambda>c. c = CHR ''.'') (rev s)"
    by simp
  then have "s = rev (dropWhile (\<lambda>c. c = CHR ''.'') (rev s)) @ rev (takeWhile (\<lambda>c. c = CHR ''.'') (rev s))"
    by (metis rev_append rev_rev_ident)
  moreover have "rev (takeWhile (\<lambda>c. c = CHR ''.'') (rev s)) =
      replicate (length (takeWhile (\<lambda>c. c = CHR ''.'') (rev s))) (CHR ''.'')"
    by (metis takeWhile_eq_replicate rev_replicate)
  ultimately show ?thesis by (simp add: rstrip_dot_def)
qed

section \<open>Failure isolation in \<open>DNSKEYParser.fetchAndStore\<close>\<close>

lemma DNSKEY_fetchAndStore_answer:
  assumes att: "0 < attempts (opts self)"
    and res: "resolve ev (length (calls w)) (domain self) (rrType self) (rrClass self) = (0, result)"
    and rc: "rcode result \<noteq> RCODE_SERVFAIL"
    and has: "havedata result"
    and pk: "ldns_wire2pkt ev (packet result) = (0, pkt)"
    and rrs: "rrs = filter (\<lambda>rr. rr_get_type rr = rrType self) (pkt_answer pkt)"
    and ne: "rrs \<noteq> []"
  shows "DNSKEY_fetchAndStore ev self w =
     (Inr (int (length rrs)),
      rrsigsStore ev \<lparr>meta_pkt = pkt, meta_rrType = rrType self\<rparr> (domain self) LDNS_SECTION_ANSWER
        (fold (\<lambda>rr. store_rr ev (ExcFailedToStoreDNSKEY rr)
                 (map_sum id Dnskey (dnskeyRow (validationToDbEnum result) (domain self) rr)))
           rrs
           (logging (DebugFetched (domain self))
              (w\<lparr>calls := calls w @ [(domain self, rrType self, rrClass self)]\<rparr>))))"
proof -
  let ?w1 = "logging (DebugFetched (domain self))
              (w\<lparr>calls := calls w @ [(domain self, rrType self, rrClass self)]\<rparr>)"
  have "fetch ev self w = (Inr (Some result), ?w1)"
    by (rule fetch_result [OF att res rc])
  then have z: "fetch_or_zero ev self w = (Inr (Inr result), ?w1)"
    by (simp add: fetch_or_zero_def)
  have p: "result2pkt ev result = Inr pkt"
    by (simp add: result2pkt_def pk)
  have l: "rr_list_by_type pkt (rrType self) LDNS_SECTION_ANSWER = Some rrs"
    using ne by (simp add: rr_list_by_type_def section_rrs_def Let_def rrs)
  show ?thesis
    by (simp add: DNSKEY_fetchAndStore_def z has p l Let_def)
qed

text \<open>
  Claim C7.  Take an answer whose records of the target type are \<open>rrs\<close>, exactly one of
  which, \<open>bad\<close>, is malformed (no row can be built from it), and a store that takes
  every row.  Then \<open>DNSKEYParser.fetchAndStore\<close> returns the number of records in
  \<open>rrs\<close>, commits to \<open>dnskey_rr\<close> exactly the rows of the well-formed records (one fewer
  than the records), and logs one store failure, for \<open>bad\<close>.
\<close>
theorem C7_malformed_record_isolated:
  assumes att: "0 < attempts (opts self)"
    and res: "resolve ev (length (calls w)) (domain self) (rrType self) (rrClass self) = (0, result)"
    and rc: "rcode result \<noteq> RCODE_SERVFAIL"
    and has: "havedata result"
    and pk: "ldns_wire2pkt ev (packet result) = (0, pkt)"
    and rrs: "rrs = filter (\<lambda>rr. rr_get_type rr = rrType self) (pkt_answer pkt)"
    and one: "malformed (dnskeyRow (validationToDbEnum result) (domain self)) rrs = [bad]"
    and ok: "\<forall>rows row. execute_ok ev rows row"
    and pend: "pending w = []"
  shows "fst (DNSKEY_fetchAndStore ev self w) = Inr (int (length rrs))
       \<and> dnskey_rows (committed (snd (DNSKEY_fetchAndStore ev self w))) =
           dnskey_rows (committed w) @
           stored_rows (dnskeyRow (validationToDbEnum result) (domain self)) rrs
       \<and> length (stored_rows (dnskeyRow (validationToDbEnum result) (domain self)) rrs) =
           length rrs - 1
       \<and> dnskey_failures (logs (snd (DNSKEY_fetchAndStore ev self w))) =
           dnskey_failures (logs w) @ [bad]"
proof -
  let ?row = "dnskeyRow (validationToDbEnum result) (domain self)"
  let ?meta = "\<lparr>meta_pkt = pkt, meta_rrType = rrType self\<rparr>"
  let ?w1 = "logging (DebugFetched (domain self))
              (w\<lparr>calls := calls w @ [(domain self, rrType self, rrClass self)]\<rparr>)"
  let ?w2 = "fold (\<lambda>rr. store_rr ev (ExcFailedToStoreDNSKEY rr) (map_sum id Dnskey (?row rr))) rrs ?w1"
  let ?w3 = "rrsigsStore ev ?meta (domain self) LDNS_SECTION_ANSWER ?w2"
  have ne: "rrs \<noteq> []"
    using one by (auto simp add: malformed_Nil)
  have run: "DNSKEY_fetchAndStore ev self w = (Inr (int (length rrs)), ?w3)"
    by (rule DNSKEY_fetchAndStore_answer [OF att res rc has pk rrs ne])
  have p1: "pending ?w1 = []"
    using pend by (simp add: logging_def)
  note loop = store_loop_effect [OF ok p1, of ExcFailedToStoreDNSKEY
      "\<lambda>rr. map_sum id Dnskey (?row rr)" rrs]
  have c2: "committed ?w2 = committed w @ map Dnskey (stored_rows ?row rrs)"
    using loop by (simp add: stored_rows_map_sum logging_def)
  have l2: "logs ?w2 = logs w @ [DebugFetched (domain self)] @ map ExcFailedToStoreDNSKEY [bad]"
    using loop by (simp add: malformed_map_sum one logging_def)
  have p2: "pending ?w2 = []"
    using loop by simp
  note sigs = rrsigsStore_effect [OF ok p2, of ?meta "domain self" LDNS_SECTION_ANSWER]
  have c3: "dnskey_rows (committed ?w3) = dnskey_rows (committed w) @ stored_rows ?row rrs"
    using sigs by (simp add: c2 dnskey_rows_append dnskey_rows_Dnskey dnskey_rows_Rrsig)
  have l3: "dnskey_failures (logs ?w3) = dnskey_failures (logs w) @ [bad]"
    using sigs by (simp add: l2 dnskey_failures_append dnskey_failures_RRSIG)
  have n: "length (stored_rows ?row rrs) = length rrs - 1"
    using length_stored_rows [of ?row rrs] by (simp add: one)
  show ?thesis
    by (simp only: run fst_conv snd_conv c3 l3 n simp_thms)
qed

text \<open>The rows of the three DNSKEY records of \<open>dnskey_pkt\<close>.\<close>

lemma dnskeyRow_good_dnskey:
  "dnskeyRow ''secure'' ''example.com'' good_dnskey =
     Inr \<lparr>dk_secure = ''secure'', dk_domain = ''example.com'', dk_ttl = 3600,
          dk_flags = 256, dk_protocol = 3, dk_algo = 8,
          rsa_exp = Some 65537, rsa_mod = Some [0xC5, 0x3B], other_key = None\<rparr>"
proof -
  have f: "rdfConvert (rr_rdf good_dnskey 0) Fmt_H = Inr 256"
    by (simp add: rdfConvert_rdf_of good_dnskey_def rdf_of_def struct_unpack_def)
  have p: "rdfConvert (rr_rdf good_dnskey 1) Fmt_B = Inr 3"
    by (simp add: rdfConvert_rdf_of good_dnskey_def rdf_of_def struct_unpack_def)
  have a: "rdfConvert (rr_rdf good_dnskey 2) Fmt_B = Inr 8"
    by (simp add: rdfConvert_rdf_of good_dnskey_def rdf_of_def struct_unpack_def)
  have k: "getRdfData (rr_rdf good_dnskey 3) = Inr short_form_key"
    by (simp add: rr_rdf_def getRdfData_def good_dnskey_def rdf_of_def)
  have m: "(8::int) \<in> set rsaAlgoIds" by (simp add: mem_rsaAlgoIds)
  have "rsaExpLen short_form_key = Inr (3, 1)"
    by (simp add: short_form_key_def rsaExpLen_short_form)
  moreover from this have "rsaExponent short_form_key = Inr 65537"
    by (simp add: rsaExponent_def int16_hexlify slice_def short_form_key_def)
  ultimately have "dnskeyKeyFields 8 short_form_key = Inr (Some 65537, Some [0xC5, 0x3B], None)"
    by (simp add: dnskeyKeyFields_rsa [OF m] maxDbExp_def lstrip_nul_def slice_from_def
        short_form_key_def)
  moreover have "rr_ttl good_dnskey = 3600"
    by (simp add: good_dnskey_def)
  ultimately show ?thesis
    by (simp add: dnskeyRow_converted [OF f p a k])
qed

lemma dnskeyRow_empty_dnskey:
  "dnskeyRow ''secure'' ''example.com'' empty_dnskey = Inl IndexError"
proof -
  have f: "rdfConvert (rr_rdf empty_dnskey 0) Fmt_H = Inr 257"
    by (simp add: rdfConvert_rdf_of empty_dnskey_def rdf_of_def struct_unpack_def)
  have p: "rdfConvert (rr_rdf empty_dnskey 1) Fmt_B = Inr 3"
    by (simp add: rdfConvert_rdf_of empty_dnskey_def rdf_of_def struct_unpack_def)
  have a: "rdfConvert (rr_rdf empty_dnskey 2) Fmt_B = Inr 8"
    by (simp add: rdfConvert_rdf_of empty_dnskey_def rdf_of_def struct_unpack_def)
  have k: "getRdfData (rr_rdf empty_dnskey 3) = Inr []"
    by (simp add: rr_rdf_def getRdfData_def empty_dnskey_def rdf_of_def)
  have m: "(8::int) \<in> set rsaAlgoIds" by (simp add: mem_rsaAlgoIds)
  have "dnskeyKeyFields 8 [] = Inl IndexError"
    by (simp add: dnskeyKeyFields_rsa [OF m] rsaExpLen_def)
  then show ?thesis
    by (simp add: dnskeyRow_converted [OF f p a k])
qed

lemma dnskeyRow_ecdsa_dnskey:
  "dnskeyRow ''secure'' ''example.com'' ecdsa_dnskey =
       Inr \<lparr>dk_secure = ''secure'', dk_domain = ''example.com'', dk_ttl = 3600,
            dk_flags = 257, dk_protocol = 3, dk_algo = 13,
            rsa_exp = None, rsa_mod = None, other_key = Some [0, 7, 9]\<rparr>"
proof -
  have f: "rdfConvert (rr_rdf ecdsa_dnskey 0) Fmt_H = Inr 257"
    by (simp add: rdfConvert_rdf_of ecdsa_dnskey_def rdf_of_def struct_unpack_def)
  have p: "rdfConvert (rr_rdf ecdsa_dnskey 1) Fmt_B = Inr 3"
    by (simp add: rdfConvert_rdf_of ecdsa_dnskey_def rdf_of_def struct_unpack_def)
  have a: "rdfConvert (rr_rdf ecdsa_dnskey 2) Fmt_B = Inr 13"
    by (simp add: rdfConvert_rdf_of ecdsa_dnskey_def rdf_of_def struct_unpack_def)
  have k: "getRdfData (rr_rdf ecdsa_dnskey 3) = Inr [0, 7, 9]"
    by (simp add: rr_rdf_def getRdfData_def ecdsa_dnskey_def rdf_of_def)
  have "dnskeyKeyFields 13 [0, 7, 9] = Inr (None, None, Some [0, 7, 9])"
    by (simp add: dnskeyKeyFields_def mem_rsaAlgoIds)
  moreover have "rr_ttl ecdsa_dnskey = 3600"
    by (simp add: ecdsa_dnskey_def)
  ultimately show ?thesis
    by (simp add: dnskeyRow_converted [OF f p a k])
qed

theorem C7_malformed_record_isolated_witness:
  "malformed (dnskeyRow ''secure'' ''example.com'') [good_dnskey, empty_dnskey, ecdsa_dnskey]
     = [empty_dnskey]
   \<and> fst (DNSKEY_fetchAndStore dnskey_env
            (new_parser DNSKEYParser ''example.com'' (options_of 3)) world0) = Inr 3
   \<and> dnskey_rows (committed (snd (DNSKEY_fetchAndStore dnskey_env
            (new_parser DNSKEYParser ''example.com'' (options_of 3)) world0))) =
       [\<lparr>dk_secure = ''secure'', dk_domain = ''example.com'', dk_ttl = 3600,
         dk_flags = 256, dk_protocol = 3, dk_algo = 8,
         rsa_exp = Some 65537, rsa_mod = Some [0xC5, 0x3B], other_key = None\<rparr>,
        \<lparr>dk_secure = ''secure'', dk_domain = ''example.com'', dk_ttl = 3600,
         dk_flags = 257, dk_protocol = 3, dk_algo = 13,
         rsa_exp = None, rsa_mod = None, other_key = Some [0, 7, 9]\<rparr>]
   \<and> dnskey_failures (logs (snd (DNSKEY_fetchAndStore dnskey_env
            (new_parser DNSKEYParser ''example.com'' (options_of 3)) world0))) = [empty_dnskey]"
proof -
  let ?self = "new_parser DNSKEYParser ''example.com'' (options_of 3)"
  let ?rrs = "[good_dnskey, empty_dnskey, ecdsa_dnskey]"
  have att: "0 < attempts (opts ?self)"
    by (simp add: new_parser_def options_of_def)
  have res: "resolve dnskey_env (length (calls world0)) (domain ?self) (rrType ?self) (rrClass ?self)
               = (0, result_of 0 True)"
    by (simp add: dnskey_env_def)
  have rc: "rcode (result_of 0 True) \<noteq> RCODE_SERVFAIL"
    by (simp add: result_of_def RCODE_SERVFAIL_def)
  have has: "havedata (result_of 0 True)"
    by (simp add: result_of_def)
  have pk: "ldns_wire2pkt dnskey_env (packet (result_of 0 True)) = (0, dnskey_pkt)"
    by (simp add: dnskey_env_def)
  have rrs: "?rrs = filter (\<lambda>rr. rr_get_type rr = rrType ?self) (pkt_answer dnskey_pkt)"
    by (simp add: dnskey_pkt_def new_parser_def class_rrType_def good_dnskey_def empty_dnskey_def
        ecdsa_dnskey_def a_rrsig_def RR_TYPE_DNSKEY_def RR_TYPE_RRSIG_def)
  have v: "validationToDbEnum (result_of 0 True) = ''secure''"
    by (simp add: validationToDbEnum_def result_of_def)
  have d: "domain ?self = ''example.com''"
    by (simp add: new_parser_def)
  have one': "malformed (dnskeyRow ''secure'' ''example.com'') ?rrs = [empty_dnskey]"
    by (simp add: malformed_def dnskeyRow_good_dnskey dnskeyRow_empty_dnskey dnskeyRow_ecdsa_dnskey)
  have one: "malformed (dnskeyRow (validationToDbEnum (result_of 0 True)) (domain ?self)) ?rrs
               = [empty_dnskey]"
    using one' by (simp only: v d)
  have ok: "\<forall>rows row. execute_ok dnskey_env rows row"
    by (simp add: dnskey_env_def)
  have pend: "pending world0 = []"
    by (simp add: world0_def)
  have st: "stored_rows (dnskeyRow ''secure'' ''example.com'') ?rrs =
       [\<lparr>dk_secure = ''secure'', dk_domain = ''example.com'', dk_ttl = 3600,
         dk_flags = 256, dk_protocol = 3, dk_algo = 8,
         rsa_exp = Some 65537, rsa_mod = Some [0xC5, 0x3B], other_key = None\<rparr>,
        \<lparr>dk_secure = ''secure'', dk_domain = ''example.com'', dk_ttl = 3600,
         dk_flags = 257, dk_protocol = 3, dk_algo = 13,
         rsa_exp = None, rsa_mod = None, other_key = Some [0, 7, 9]\<rparr>]"
    by (simp add: stored_rows_def dnskeyRow_good_dnskey dnskeyRow_empty_dnskey dnskeyRow_ecdsa_dnskey)
  show ?thesis
    using one' C7_malformed_record_isolated [OF att res rc has pk rrs one ok pend]
    by (simp add: v d st world0_def)
qed

section \<open>Stored signature rows\<close>

text \<open>
  Claim C9.  \<open>rrsigs\<close> selects every RRSIG of the answer section: the type covered
  (rdf 0) is never read.  With a store that takes every row, \<open>rrsigsStore\<close> commits
  one row per RRSIG from which a row can be built, and each such row has the RR type
  given to \<open>DnsMetadata\<close> in its \<open>rr_type\<close> field and, as signer, the signer name
  without its trailing dots.
\<close>
theorem C9_rrsig_rows:
  assumes ok: "\<forall>rows row. execute_ok ev rows row"
    and pend: "pending w = []"
  shows "rrsigs meta LDNS_SECTION_ANSWER =
           filter (\<lambda>rr. rr_get_type rr = RR_TYPE_RRSIG) (pkt_answer (meta_pkt meta))
       \<and> committed (rrsigsStore ev meta dmn LDNS_SECTION_ANSWER w) =
           committed w @ map Rrsig (stored_rows (rrsigRow meta dmn) (rrsigs meta LDNS_SECTION_ANSWER))
       \<and> (\<forall>row \<in> set (stored_rows (rrsigRow meta dmn) (rrsigs meta LDNS_SECTION_ANSWER)).
             sig_rr_type row = meta_rrType meta)
       \<and> (rrsigRow meta dmn rr = Inr row \<longrightarrow>
             sig_rr_type row = meta_rrType meta
           \<and> sig_signer row = rstrip_dot (str_rdf (rrsig_rdf rr 7))
           \<and> (sig_signer row = [] \<or> last (sig_signer row) \<noteq> CHR ''.'')
           \<and> (\<exists>n. str_rdf (rrsig_rdf rr 7) = sig_signer row @ replicate n (CHR ''.'')))"
proof -
  have rows: "\<forall>row \<in> set (stored_rows (rrsigRow meta dmn) rrs). sig_rr_type row = meta_rrType meta"
    for rrs
    by (auto simp add: stored_rows_def rrsigRow_fields(1) split: sum.splits)
  have one: "sig_rr_type row = meta_rrType meta
           \<and> sig_signer row = rstrip_dot (str_rdf (rrsig_rdf rr 7))
           \<and> (sig_signer row = [] \<or> last (sig_signer row) \<noteq> CHR ''.'')
           \<and> (\<exists>n. str_rdf (rrsig_rdf rr 7) = sig_signer row @ replicate n (CHR ''.''))"
    if r: "rrsigRow meta dmn rr = Inr row"
  proof -
    note f = rrsigRow_fields [OF r]
    have "\<exists>n. str_rdf (rrsig_rdf rr 7) = rstrip_dot (str_rdf (rrsig_rdf rr 7)) @ replicate n (CHR ''.'')"
      using rstrip_dot_only_dots [of "str_rdf (rrsig_rdf rr 7)"] by blast
    then show ?thesis
      using rstrip_dot_no_trailing_dot [of "str_rdf (rrsig_rdf rr 7)"] by (simp add: f)
  qed
  have c: "committed (rrsigsStore ev meta dmn LDNS_SECTION_ANSWER w) =
           committed w @ map Rrsig (stored_rows (rrsigRow meta dmn) (rrsigs meta LDNS_SECTION_ANSWER))"
    using rrsigsStore_effect [OF ok pend, of meta dmn LDNS_SECTION_ANSWER] by simp
  show ?thesis
    using rrsigs_answer [of meta] c rows [of "rrsigs meta LDNS_SECTION_ANSWER"] one
    by blast
qed

text \<open>The row of the RRSIG of \<open>dnskey_pkt\<close>, which covers type A, stored while scanning DNSKEY.\<close>

lemma rrsigRow_a_rrsig:
  "rrsigRow \<lparr>meta_pkt = dnskey_pkt, meta_rrType = RR_TYPE_DNSKEY\<rparr> ''example.com'' a_rrsig =
     Inr \<lparr>sig_domain = ''example.com'', sig_ttl = 300, sig_rr_type = RR_TYPE_DNSKEY,
          sig_algo = 8, sig_labels = 2, sig_orig_ttl = 300,
          sig_expiration = 1342177280, sig_inception = 1325400064,
          sig_keytag = 12345, sig_signer = ''example.com'',
          sig_signature = [0xAA, 0xBB]\<rparr>"
  by (simp add: rrsigRow_def bind_err_def rrsig_rdf_def rr_rdf_def rdfConvert_def getRdfData_def
      struct_unpack_def a_rrsig_def rdf_of_def rstrip_dot_def str_rdf_def)

theorem C9_rrsig_rows_witness:
  "rdf_data (rr_rdfs a_rrsig ! 0) = [0, 1]
   \<and> rrsigs \<lparr>meta_pkt = dnskey_pkt, meta_rrType = RR_TYPE_DNSKEY\<rparr> LDNS_SECTION_ANSWER = [a_rrsig]
   \<and> committed (rrsigsStore dnskey_env \<lparr>meta_pkt = dnskey_pkt, meta_rrType = RR_TYPE_DNSKEY\<rparr>
                  ''example.com'' LDNS_SECTION_ANSWER world0) =
       [Rrsig \<lparr>sig_domain = ''example.com'', sig_ttl = 300, sig_rr_type = RR_TYPE_DNSKEY,
          sig_algo = 8, sig_labels = 2, sig_orig_ttl = 300,
          sig_expiration = 1342177280, sig_inception = 1325400064,
          sig_keytag = 12345, sig_signer = ''example.com'',
          sig_signature = [0xAA, 0xBB]\<rparr>]
   \<and> str_rdf (rrsig_rdf a_rrsig 7) = ''example.com.''"
proof -
  let ?meta = "\<lparr>meta_pkt = dnskey_pkt, meta_rrType = RR_TYPE_DNSKEY\<rparr>"
  have ok: "\<forall>rows row. execute_ok dnskey_env rows row"
    by (simp add: dnskey_env_def)
  have pend: "pending world0 = []"
    by (simp add: world0_def)
  have sel: "filter (\<lambda>rr. rr_get_type rr = RR_TYPE_RRSIG) (pkt_answer (meta_pkt ?meta)) = [a_rrsig]"
    by (simp add: dnskey_pkt_def good_dnskey_def empty_dnskey_def
        ecdsa_dnskey_def a_rrsig_def RR_TYPE_DNSKEY_def RR_TYPE_RRSIG_def)
  have cov: "rdf_data (rr_rdfs a_rrsig ! 0) = [0, 1]"
    by (simp add: a_rrsig_def rdf_of_def)
  have str: "str_rdf (rrsig_rdf a_rrsig 7) = ''example.com.''"
    by (simp add: str_rdf_def rrsig_rdf_def rr_rdf_def a_rrsig_def)
  let ?row = "\<lparr>sig_domain = ''example.com'', sig_ttl = 300, sig_rr_type = RR_TYPE_DNSKEY,
          sig_algo = 8, sig_labels = 2, sig_orig_ttl = 300,
          sig_expiration = 1342177280, sig_inception = 1325400064,
          sig_keytag = 12345, sig_signer = ''example.com'',
          sig_signature = [0xAA, 0xBB]\<rparr>"
  note inst = C9_rrsig_rows [OF ok pend, of ?meta "''example.com''" a_rrsig ?row]
  have s1: "rrsigs ?meta LDNS_SECTION_ANSWER = [a_rrsig]"
    using inst [THEN conjunct1] sel by simp
  have s2: "committed (rrsigsStore dnskey_env ?meta ''example.com'' LDNS_SECTION_ANSWER world0) =
              [Rrsig ?row]"
    using inst [THEN conjunct2, THEN conjunct1]
    by (simp add: s1 stored_rows_def rrsigRow_a_rrsig world0_def)
  show ?thesis
    using cov str s1 s2 by simp
qed

section \<open>Stored key rows\<close>

lemma stored_rows_member:
  "rr \<in> set rrs \<Longrightarrow> f rr = Inr row \<Longrightarrow> row \<in> set (stored_rows f rrs)"
  by (force simp add: stored_rows_def)

lemma stored_rows_never_both:
  "\<forall>row \<in> set (stored_rows (dnskeyRow s d) rrs). rsa_mod row = None \<or> other_key row = None"
proof
  fix row assume "row \<in> set (stored_rows (dnskeyRow s d) rrs)"
  then obtain rr where "dnskeyRow s d rr = Inr row"
    by (auto simp add: stored_rows_def split: sum.splits)
  then show "rsa_mod row = None \<or> other_key row = None"
    by (rule dnskeyRow_never_both)
qed

lemma DNSKEY_fetchAndStore_committed:
  assumes att: "0 < attempts (opts self)"
    and res: "resolve ev (length (calls w)) (domain self) (rrType self) (rrClass self) = (0, result)"
    and rc: "rcode result \<noteq> RCODE_SERVFAIL"
    and has: "havedata result"
    and pk: "ldns_wire2pkt ev (packet result) = (0, pkt)"
    and rrs: "rrs = filter (\<lambda>rr. rr_get_type rr = rrType self) (pkt_answer pkt)"
    and ne: "rrs \<noteq> []"
    and ok: "\<forall>rows row. execute_ok ev rows row"
    and pend: "pending w = []"
  shows "dnskey_rows (committed (snd (DNSKEY_fetchAndStore ev self w))) =
           dnskey_rows (committed w) @
           stored_rows (dnskeyRow (validationToDbEnum result) (domain self)) rrs"
proof -
  let ?row = "dnskeyRow (validationToDbEnum result) (domain self)"
  let ?meta = "\<lparr>meta_pkt = pkt, meta_rrType = rrType self\<rparr>"
  let ?w1 = "logging (DebugFetched (domain self))
              (w\<lparr>calls := calls w @ [(domain self, rrType self, rrClass self)]\<rparr>)"
  let ?w2 = "fold (\<lambda>rr. store_rr ev (ExcFailedToStoreDNSKEY rr) (map_sum id Dnskey (?row rr))) rrs ?w1"
  let ?w3 = "rrsigsStore ev ?meta (domain self) LDNS_SECTION_ANSWER ?w2"
  have run: "DNSKEY_fetchAndStore ev self w = (Inr (int (length rrs)), ?w3)"
    by (rule DNSKEY_fetchAndStore_answer [OF att res rc has pk rrs ne])
  have p1: "pending ?w1 = []"
    using pend by (simp add: logging_def)
  note loop = store_loop_effect [OF ok p1, of ExcFailedToStoreDNSKEY
      "\<lambda>rr. map_sum id Dnskey (?row rr)" rrs]
  have c2: "committed ?w2 = committed w @ map Dnskey (stored_rows ?row rrs)"
    using loop by (simp add: stored_rows_map_sum logging_def)
  have p2: "pending ?w2 = []"
    using loop by simp
  note sigs = rrsigsStore_effect [OF ok p2, of ?meta "domain self" LDNS_SECTION_ANSWER]
  have "dnskey_rows (committed ?w3) = dnskey_rows (committed w) @ stored_rows ?row rrs"
    using sigs by (simp add: c2 dnskey_rows_append dnskey_rows_Dnskey dnskey_rows_Rrsig)
  then show ?thesis
    by (simp only: run snd_conv)
qed

text \<open>
  Claim C5.  Take an answer with data whose DNSKEY records are \<open>rrs\<close>, and a store that
  takes every row.  For a record of \<open>rrs\<close> whose fields convert, with an RSA algorithm
  number and a decoded exponent above $2^{63} - 1$, the row built for the INSERT has
  exponent -1, the whole public key field as the opaque key and no modulus, and it is
  among the rows that \<open>DNSKEYParser.fetchAndStore\<close> commits to \<open>dnskey_rr\<close>: these are
  exactly the rows built from the records of \<open>rrs\<close>.  No row that is built or committed
  by the call has both a modulus and an opaque key.
\<close>
theorem C5_oversized_exponent_sentinel:
  assumes att: "0 < attempts (opts self)"
    and res: "resolve ev (length (calls w)) (domain self) (rrType self) (rrClass self) = (0, result)"
    and rc: "rcode result \<noteq> RCODE_SERVFAIL"
    and has: "havedata result"
    and pk: "ldns_wire2pkt ev (packet result) = (0, pkt)"
    and rrs: "rrs = filter (\<lambda>rr. rr_get_type rr = rrType self) (pkt_answer pkt)"
    and mem: "rr \<in> set rrs"
    and f: "rdfConvert (rr_rdf rr 0) Fmt_H = Inr flags"
    and p: "rdfConvert (rr_rdf rr 1) Fmt_B = Inr proto"
    and a: "rdfConvert (rr_rdf rr 2) Fmt_B = Inr algo"
    and k: "getRdfData (rr_rdf rr 3) = Inr pubkey"
    and rsa: "algo \<in> set rsaAlgoIds"
    and ex: "rsaExponent pubkey = Inr e" and big: "2 ^ 63 - 1 < e"
    and ok: "\<forall>rows row. execute_ok ev rows row"
    and pend: "pending w = []"
  shows "dnskeyRow s d rr =
           Inr \<lparr>dk_secure = s, dk_domain = d, dk_ttl = rr_ttl rr,
                dk_flags = flags, dk_protocol = proto, dk_algo = algo,
                rsa_exp = Some (- 1), rsa_mod = None, other_key = Some pubkey\<rparr>
       \<and> (dnskeyRow s' d' rr' = Inr row' \<longrightarrow> rsa_mod row' = None \<or> other_key row' = None)
       \<and> dnskey_rows (committed (snd (DNSKEY_fetchAndStore ev self w))) =
           dnskey_rows (committed w) @
           stored_rows (dnskeyRow (validationToDbEnum result) (domain self)) rrs
       \<and> \<lparr>dk_secure = validationToDbEnum result, dk_domain = domain self, dk_ttl = rr_ttl rr,
           dk_flags = flags, dk_protocol = proto, dk_algo = algo,
           rsa_exp = Some (- 1), rsa_mod = None, other_key = Some pubkey\<rparr>
           \<in> set (stored_rows (dnskeyRow (validationToDbEnum result) (domain self)) rrs)
       \<and> (\<forall>row \<in> set (dnskey_rows (committed (snd (DNSKEY_fetchAndStore ev self w)))).
             row \<in> set (dnskey_rows (committed w)) \<or> rsa_mod row = None \<or> other_key row = None)"
proof -
  from ex obtain exp_len exp_hdr_len where "rsaExpLen pubkey = Inr (exp_len, exp_hdr_len)"
    by (auto simp add: rsaExponent_def split: sum.splits)
  then have key: "dnskeyKeyFields algo pubkey = Inr (Some (- 1), None, Some pubkey)"
    using ex big by (simp add: dnskeyKeyFields_rsa [OF rsa] maxDbExp_eq)
  have row: "dnskeyRow s d rr =
           Inr \<lparr>dk_secure = s, dk_domain = d, dk_ttl = rr_ttl rr,
                dk_flags = flags, dk_protocol = proto, dk_algo = algo,
                rsa_exp = Some (- 1), rsa_mod = None, other_key = Some pubkey\<rparr>" for s d
    using key by (simp add: dnskeyRow_converted [OF f p a k])
  have ne: "rrs \<noteq> []"
    using mem by auto
  note com = DNSKEY_fetchAndStore_committed [OF att res rc has pk rrs ne ok pend]
  note inn = stored_rows_member [of rr rrs "dnskeyRow (validationToDbEnum result) (domain self)",
      OF mem row [of "validationToDbEnum result" "domain self"]]
  have both: "\<forall>row \<in> set (dnskey_rows (committed (snd (DNSKEY_fetchAndStore ev self w)))).
             row \<in> set (dnskey_rows (committed w)) \<or> rsa_mod row = None \<or> other_key row = None"
    using stored_rows_never_both [of "validationToDbEnum result" "domain self" rrs]
    by (auto simp add: com)
  show ?thesis
    using row [of s d] dnskeyRow_never_both [of s' d' rr' row'] com inn both
    by blast
qed

theorem C5_oversized_exponent_sentinel_witness:
  "(5::int) \<in> set rsaAlgoIds
   \<and> rsaExponent big_exp_key = Inr (2 ^ 64) \<and> (2 ^ 63 - 1 < (2 ^ 64 :: int))
   \<and> dnskeyRow ''secure'' ''example.com'' big_exp_dnskey =
       Inr \<lparr>dk_secure = ''secure'', dk_domain = ''example.com'', dk_ttl = 3600,
            dk_flags = 256, dk_protocol = 3, dk_algo = 5,
            rsa_exp = Some (- 1), rsa_mod = None, other_key = Some big_exp_key\<rparr>
   \<and> dnskey_rows (committed (snd (DNSKEY_fetchAndStore big_exp_env
            (new_parser DNSKEYParser ''example.com'' (options_of 3)) world0))) =
       [\<lparr>dk_secure = ''secure'', dk_domain = ''example.com'', dk_ttl = 3600,
         dk_flags = 256, dk_protocol = 3, dk_algo = 5,
         rsa_exp = Some (- 1), rsa_mod = None, other_key = Some big_exp_key\<rparr>]"
proof -
  let ?self = "new_parser DNSKEYParser ''example.com'' (options_of 3)"
  let ?rrs = "[big_exp_dnskey]"
  have att: "0 < attempts (opts ?self)"
    by (simp add: new_parser_def options_of_def)
  have res: "resolve big_exp_env (length (calls world0)) (domain ?self) (rrType ?self) (rrClass ?self)
               = (0, result_of 0 True)"
    by (simp add: big_exp_env_def)
  have rc: "rcode (result_of 0 True) \<noteq> RCODE_SERVFAIL"
    by (simp add: result_of_def RCODE_SERVFAIL_def)
  have has: "havedata (result_of 0 True)"
    by (simp add: result_of_def)
  have pk: "ldns_wire2pkt big_exp_env (packet (result_of 0 True)) = (0, big_exp_pkt)"
    by (simp add: big_exp_env_def)
  have rrs: "?rrs = filter (\<lambda>rr. rr_get_type rr = rrType ?self) (pkt_answer big_exp_pkt)"
    by (simp add: big_exp_pkt_def new_parser_def class_rrType_def big_exp_dnskey_def)
  have mem: "big_exp_dnskey \<in> set ?rrs"
    by simp
  have f: "rdfConvert (rr_rdf big_exp_dnskey 0) Fmt_H = Inr 256"
    by (simp add: rdfConvert_rdf_of big_exp_dnskey_def rdf_of_def struct_unpack_def)
  have p: "rdfConvert (rr_rdf big_exp_dnskey 1) Fmt_B = Inr 3"
    by (simp add: rdfConvert_rdf_of big_exp_dnskey_def rdf_of_def struct_unpack_def)
  have a: "rdfConvert (rr_rdf big_exp_dnskey 2) Fmt_B = Inr 5"
    by (simp add: rdfConvert_rdf_of big_exp_dnskey_def rdf_of_def struct_unpack_def)
  have k: "getRdfData (rr_rdf big_exp_dnskey 3) = Inr big_exp_key"
    by (simp add: rr_rdf_def getRdfData_def big_exp_dnskey_def rdf_of_def)
  have m: "(5::int) \<in> set rsaAlgoIds" by (simp add: mem_rsaAlgoIds)
  have "rsaExpLen big_exp_key = Inr (9, 1)"
    by (simp add: big_exp_key_def rsaExpLen_short_form)
  then have e: "rsaExponent big_exp_key = Inr (2 ^ 64)"
    by (simp add: rsaExponent_def int16_hexlify slice_def big_exp_key_def)
  have g: "2 ^ 63 - 1 < (2 ^ 64 :: int)" by simp
  have ok: "\<forall>rows row. execute_ok big_exp_env rows row"
    by (simp add: big_exp_env_def)
  have pend: "pending world0 = []"
    by (simp add: world0_def)
  have v: "validationToDbEnum (result_of 0 True) = ''secure''"
    by (simp add: validationToDbEnum_def result_of_def)
  have d: "domain ?self = ''example.com''"
    by (simp add: new_parser_def)
  have t: "rr_ttl big_exp_dnskey = 3600"
    by (simp add: big_exp_dnskey_def)
  note inst = C5_oversized_exponent_sentinel
    [OF att res rc has pk rrs mem f p a k m e g ok pend, of "''secure''" "''example.com''"]
  have row: "dnskeyRow ''secure'' ''example.com'' big_exp_dnskey =
       Inr \<lparr>dk_secure = ''secure'', dk_domain = ''example.com'', dk_ttl = 3600,
            dk_flags = 256, dk_protocol = 3, dk_algo = 5,
            rsa_exp = Some (- 1), rsa_mod = None, other_key = Some big_exp_key\<rparr>"
    using inst [THEN conjunct1] by (simp add: t)
  have com: "dnskey_rows (committed (snd (DNSKEY_fetchAndStore big_exp_env ?self world0))) =
       [\<lparr>dk_secure = ''secure'', dk_domain = ''example.com'', dk_ttl = 3600,
         dk_flags = 256, dk_protocol = 3, dk_algo = 5,
         rsa_exp = Some (- 1), rsa_mod = None, other_key = Some big_exp_key\<rparr>]"
    using inst [THEN conjunct2, THEN conjunct2, THEN conjunct1]
    by (simp add: v d stored_rows_def row world0_def)
  show ?thesis
    using m e g row com by simp
qed

text \<open>
  Claim C6.  Take an answer with data whose DNSKEY records are \<open>rrs\<close>, and a store that
  takes every row.  For a record of \<open>rrs\<close> whose fields convert, with an algorithm
  number outside 1, 5, 7, 8 and 10, the row built for the INSERT has no exponent, no
  modulus and the whole public key field as the opaque key, and it is among the rows
  that \<open>DNSKEYParser.fetchAndStore\<close> commits to \<open>dnskey_rr\<close>: these are exactly the rows
  built from the records of \<open>rrs\<close>.  Every committed row with such an algorithm
  number has no exponent, no modulus and an opaque key.
\<close>
theorem C6_non_rsa_opaque:
  assumes att: "0 < attempts (opts self)"
    and res: "resolve ev (length (calls w)) (domain self) (rrType self) (rrClass self) = (0, result)"
    and rc: "rcode result \<noteq> RCODE_SERVFAIL"
    and has: "havedata result"
    and pk: "ldns_wire2pkt ev (packet result) = (0, pkt)"
    and rrs: "rrs = filter (\<lambda>rr. rr_get_type rr = rrType self) (pkt_answer pkt)"
    and mem: "rr \<in> set rrs"
    and f: "rdfConvert (rr_rdf rr 0) Fmt_H = Inr flags"
    and p: "rdfConvert (rr_rdf rr 1) Fmt_B = Inr proto"
    and a: "rdfConvert (rr_rdf rr 2) Fmt_B = Inr algo"
    and k: "getRdfData (rr_rdf rr 3) = Inr pubkey"
    and non: "algo \<notin> {1, 5, 7, 8, 10}"
    and ok: "\<forall>rows row. execute_ok ev rows row"
    and pend: "pending w = []"
  shows "dnskeyRow s d rr =
           Inr \<lparr>dk_secure = s, dk_domain = d, dk_ttl = rr_ttl rr,
                dk_flags = flags, dk_protocol = proto, dk_algo = algo,
                rsa_exp = None, rsa_mod = None, other_key = Some pubkey\<rparr>
       \<and> dnskey_rows (committed (snd (DNSKEY_fetchAndStore ev self w))) =
           dnskey_rows (committed w) @
           stored_rows (dnskeyRow (validationToDbEnum result) (domain self)) rrs
       \<and> \<lparr>dk_secure = validationToDbEnum result, dk_domain = domain self, dk_ttl = rr_ttl rr,
           dk_flags = flags, dk_protocol = proto, dk_algo = algo,
           rsa_exp = None, rsa_mod = None, other_key = Some pubkey\<rparr>
           \<in> set (stored_rows (dnskeyRow (validationToDbEnum result) (domain self)) rrs)
       \<and> (\<forall>row \<in> set (stored_rows (dnskeyRow (validationToDbEnum result) (domain self)) rrs).
             dk_algo row \<notin> {1, 5, 7, 8, 10} \<longrightarrow>
               rsa_exp row = None \<and> rsa_mod row = None \<and> other_key row \<noteq> None)"
proof -
  have "algo \<notin> set rsaAlgoIds"
    using non by (simp only: mem_rsaAlgoIds not_False_eq_True)
  then have key: "dnskeyKeyFields algo pubkey = Inr (None, None, Some pubkey)"
    by (simp add: dnskeyKeyFields_def)
  have row: "dnskeyRow s d rr =
           Inr \<lparr>dk_secure = s, dk_domain = d, dk_ttl = rr_ttl rr,
                dk_flags = flags, dk_protocol = proto, dk_algo = algo,
                rsa_exp = None, rsa_mod = None, other_key = Some pubkey\<rparr>" for s d
    using key by (simp add: dnskeyRow_converted [OF f p a k])
  have ne: "rrs \<noteq> []"
    using mem by auto
  note com = DNSKEY_fetchAndStore_committed [OF att res rc has pk rrs ne ok pend]
  note inn = stored_rows_member [of rr rrs "dnskeyRow (validationToDbEnum result) (domain self)",
      OF mem row [of "validationToDbEnum result" "domain self"]]
  have all: "\<forall>row \<in> set (stored_rows (dnskeyRow s0 d0) rrs0).
             dk_algo row \<notin> {1, 5, 7, 8, 10} \<longrightarrow>
               rsa_exp row = None \<and> rsa_mod row = None \<and> other_key row \<noteq> None" for s0 d0 rrs0
  proof
    fix row assume "row \<in> set (stored_rows (dnskeyRow s0 d0) rrs0)"
    then obtain rr0 where r0: "dnskeyRow s0 d0 rr0 = Inr row"
      by (auto simp add: stored_rows_def split: sum.splits)
    then obtain algo0 pubkey0 where
      k0: "dnskeyKeyFields algo0 pubkey0 = Inr (rsa_exp row, rsa_mod row, other_key row)"
      and a0: "dk_algo row = algo0"
      by (auto simp add: dnskeyRow_def bind_err_def split: sum.splits)
    show "dk_algo row \<notin> {1, 5, 7, 8, 10} \<longrightarrow>
               rsa_exp row = None \<and> rsa_mod row = None \<and> other_key row \<noteq> None"
    proof
      assume "dk_algo row \<notin> {1, 5, 7, 8, 10}"
      then have "algo0 \<notin> set rsaAlgoIds"
        using a0 by (simp only: mem_rsaAlgoIds not_False_eq_True)
      then have "Inr (None, None, Some pubkey0) = Inr (rsa_exp row, rsa_mod row, other_key row)"
        using k0 by (simp add: dnskeyKeyFields_def)
      then have "rsa_exp row = None" and "rsa_mod row = None" and "other_key row = Some pubkey0"
        by simp_all
      then show "rsa_exp row = None \<and> rsa_mod row = None \<and> other_key row \<noteq> None"
        by simp
    qed
  qed
  show ?thesis
    using row [of s d] com inn all [of "validationToDbEnum result" "domain self" rrs]
    by blast
qed

theorem C6_non_rsa_opaque_witness:
  "(13::int) \<notin> {1, 5, 7, 8, 10}
   \<and> dnskeyRow ''secure'' ''example.com'' ecdsa_dnskey =
       Inr \<lparr>dk_secure = ''secure'', dk_domain = ''example.com'', dk_ttl = 3600,
            dk_flags = 257, dk_protocol = 3, dk_algo = 13,
            rsa_exp = None, rsa_mod = None, other_key = Some [0, 7, 9]\<rparr>
   \<and> dnskey_rows (committed (snd (DNSKEY_fetchAndStore dnskey_env
            (new_parser DNSKEYParser ''example.com'' (options_of 3)) world0))) =
       [\<lparr>dk_secure = ''secure'', dk_domain = ''example.com'', dk_ttl = 3600,
         dk_flags = 256, dk_protocol = 3, dk_algo = 8,
         rsa_exp = Some 65537, rsa_mod = Some [0xC5, 0x3B], other_key = None\<rparr>,
        \<lparr>dk_secure = ''secure'', dk_domain = ''example.com'', dk_ttl = 3600,
         dk_flags = 257, dk_protocol = 3, dk_algo = 13,
         rsa_exp = None, rsa_mod = None, other_key = Some [0, 7, 9]\<rparr>]"
proof -
  let ?self = "new_parser DNSKEYParser ''example.com'' (options_of 3)"
  let ?rrs = "[good_dnskey, empty_dnskey, ecdsa_dnskey]"
  have att: "0 < attempts (opts ?self)"
    by (simp add: new_parser_def options_of_def)
  have res: "resolve dnskey_env (length (calls world0)) (domain ?self) (rrType ?self) (rrClass ?self)
               = (0, result_of 0 True)"
    by (simp add: dnskey_env_def)
  have rc: "rcode (result_of 0 True) \<noteq> RCODE_SERVFAIL"
    by (simp add: result_of_def RCODE_SERVFAIL_def)
  have has: "havedata (result_of 0 True)"
    by (simp add: result_of_def)
  have pk: "ldns_wire2pkt dnskey_env (packet (result_of 0 True)) = (0, dnskey_pkt)"
    by (simp add: dnskey_env_def)
  have rrs: "?rrs = filter (\<lambda>rr. rr_get_type rr = rrType ?self) (pkt_answer dnskey_pkt)"
    by (simp add: dnskey_pkt_def new_parser_def class_rrType_def good_dnskey_def empty_dnskey_def
        ecdsa_dnskey_def a_rrsig_def RR_TYPE_DNSKEY_def RR_TYPE_RRSIG_def)
  have mem: "ecdsa_dnskey \<in> set ?rrs"
    by simp
  have f: "rdfConvert (rr_rdf ecdsa_dnskey 0) Fmt_H = Inr 257"
    by (simp add: rdfConvert_rdf_of ecdsa_dnskey_def rdf_of_def struct_unpack_def)
  have p: "rdfConvert (rr_rdf ecdsa_dnskey 1) Fmt_B = Inr 3"
    by (simp add: rdfConvert_rdf_of ecdsa_dnskey_def rdf_of_def struct_unpack_def)
  have a: "rdfConvert (rr_rdf ecdsa_dnskey 2) Fmt_B = Inr 13"
    by (simp add: rdfConvert_rdf_of ecdsa_dnskey_def rdf_of_def struct_unpack_def)
  have k: "getRdfData (rr_rdf ecdsa_dnskey 3) = Inr [0, 7, 9]"
    by (simp add: rr_rdf_def getRdfData_def ecdsa_dnskey_def rdf_of_def)
  have m: "(13::int) \<notin> {1, 5, 7, 8, 10}" by simp
  have ok: "\<forall>rows row. execute_ok dnskey_env rows row"
    by (simp add: dnskey_env_def)
  have pend: "pending world0 = []"
    by (simp add: world0_def)
  have v: "validationToDbEnum (result_of 0 True) = ''secure''"
    by (simp add: validationToDbEnum_def result_of_def)
  have d: "domain ?self = ''example.com''"
    by (simp add: new_parser_def)
  have t: "rr_ttl ecdsa_dnskey = 3600"
    by (simp add: ecdsa_dnskey_def)
  note inst = C6_non_rsa_opaque
    [OF att res rc has pk rrs mem f p a k m ok pend, of "''secure''" "''example.com''"]
  have row: "dnskeyRow ''secure'' ''example.com'' ecdsa_dnskey =
       Inr \<lparr>dk_secure = ''secure'', dk_domain = ''example.com'', dk_ttl = 3600,
            dk_flags = 257, dk_protocol = 3, dk_algo = 13,
            rsa_exp = None, rsa_mod = None, other_key = Some [0, 7, 9]\<rparr>"
    using inst [THEN conjunct1] by (simp add: t)
  have com: "dnskey_rows (committed (snd (DNSKEY_fetchAndStore dnskey_env ?self world0))) =
       [\<lparr>dk_secure = ''secure'', dk_domain = ''example.com'', dk_ttl = 3600,
         dk_flags = 256, dk_protocol = 3, dk_algo = 8,
         rsa_exp = Some 65537, rsa_mod = Some [0xC5, 0x3B], other_key = None\<rparr>,
        \<lparr>dk_secure = ''secure'', dk_domain = ''example.com'', dk_ttl = 3600,
         dk_flags = 257, dk_protocol = 3, dk_algo = 13,
         rsa_exp = None, rsa_mod = None, other_key = Some [0, 7, 9]\<rparr>]"
    using inst [THEN conjunct2, THEN conjunct1]
    by (simp add: v d stored_rows_def row dnskeyRow_good_dnskey dnskeyRow_empty_dnskey world0_def)
  show ?thesis
    using m row com by simp
qed

end
